theory Spec2Isabelle
  imports Complex_Main "HOL-Library.Log_Nat" "HOL-Library.Char_ord" "HOL-Library.List_Lexorder"
begin

section \<open>Exceptions\<close>

text \<open>
  Every exception the two programs can raise is a value. The string carried by an
  exception is the message that \<^verbatim>\<open>str(e)\<close> returns.
\<close>

datatype error =
    ValueError string
  | RuntimeError string
  | AttributeError string
  | NotADirectoryError string
  | Cv2Error string
  | ZeroDivisionError
  | IndexError

definition ebind :: "error + 'a \<Rightarrow> ('a \<Rightarrow> error + 'b) \<Rightarrow> error + 'b" where
  "ebind m f = (case m of Inl e \<Rightarrow> Inl e | Inr v \<Rightarrow> f v)"

section \<open>Python floats\<close>

text \<open>
  A Python \<^verbatim>\<open>float\<close> is an IEEE 754 binary64 number and the two coordinate maps
  hold binary32 numbers. Every finite float is a rational, and every arithmetic operation
  returns the exact result rounded to the nearest representable number, ties to even.
  \<open>round_to p\<close> is this rounding for a significand of \<open>p\<close> bits. The exponent range is
  not modelled: array dimensions are below \<open>2 ^ 63\<close>, so no intermediate value of the
  projector leaves the normal range of either format.
\<close>

definition rne :: "rat \<Rightarrow> int" where
  "rne q = (let f = \<lfloor>q\<rfloor>; r = q - of_int f in
            if r < 1/2 then f else if 1/2 < r then f + 1
            else if even f then f else f + 1)"

definition expo :: "rat \<Rightarrow> int" where
  "expo q = (let (a, b) = quotient_of \<bar>q\<bar>; d = bitlen a - bitlen b in
             if 2 powi d \<le> \<bar>q\<bar> then d else d - 1)"

definition round_to :: "nat \<Rightarrow> rat \<Rightarrow> rat" where
  "round_to p q = (if q = 0 then 0 else
      let u = 2 powi (expo q - int p + 1) in of_int (rne (q / u)) * u)"

definition f64 :: "rat \<Rightarrow> rat" where
  "f64 = round_to 53"

definition f32 :: "rat \<Rightarrow> rat" where
  "f32 = round_to 24"

text \<open>\<^verbatim>\<open>a / b\<close> on two Python ints: the correctly rounded quotient.\<close>

definition true_div :: "int \<Rightarrow> int \<Rightarrow> error + rat" where
  "true_div a b = (if b = 0 then Inl ZeroDivisionError else Inr (f64 (of_int a / of_int b)))"

text \<open>An int operand of a float operation is converted to a float first.\<close>

definition int_to_float :: "int \<Rightarrow> rat" where
  "int_to_float n = f64 (of_int n)"

definition fadd :: "rat \<Rightarrow> rat \<Rightarrow> rat" where
  "fadd a b = f64 (a + b)"

definition fsub :: "rat \<Rightarrow> rat \<Rightarrow> rat" where
  "fsub a b = f64 (a - b)"

definition fmul :: "rat \<Rightarrow> rat \<Rightarrow> rat" where
  "fmul a b = f64 (a * b)"

definition fdiv :: "rat \<Rightarrow> rat \<Rightarrow> error + rat" where
  "fdiv a b = (if b = 0 then Inl ZeroDivisionError else Inr (f64 (a / b)))"

text \<open>\<^verbatim>\<open>np.pi\<close> is the float \<^verbatim>\<open>3.141592653589793\<close>.\<close>

definition np_pi :: rat where
  "np_pi = 884279719003555 / 281474976710656"

section \<open>Arrays\<close>

text \<open>
  A two-dimensional numpy array: its shape and its rows. For an image the cells are
  pixels and \<open>shape0\<close>, \<open>shape1\<close> are its height and width.
\<close>

record 'a ndarray =
  shape0 :: nat
  shape1 :: nat
  cells :: "'a list list"

definition wf_array :: "'a ndarray \<Rightarrow> bool" where
  "wf_array a = (length (cells a) = shape0 a \<and> list_all (\<lambda>r. length r = shape1 a) (cells a))"

definition np_zeros :: "nat \<Rightarrow> nat \<Rightarrow> rat ndarray" where
  "np_zeros n m = \<lparr>shape0 = n, shape1 = m, cells = replicate n (replicate m 0)\<rparr>"

text \<open>
  \<^verbatim>\<open>a[y, x] = v\<close> on a \<^verbatim>\<open>float32\<close> array: the value is narrowed to binary32, and an
  index out of range raises.
\<close>

definition setitem32 :: "rat ndarray \<Rightarrow> nat \<Rightarrow> nat \<Rightarrow> rat \<Rightarrow> error + rat ndarray" where
  "setitem32 a y x v =
     (if y < shape0 a \<and> x < shape1 a
      then Inr (a\<lparr>cells := (cells a)[y := (cells a ! y)[x := f32 v]]\<rparr>)
      else Inl IndexError)"

section \<open>The equirectangular projector\<close>

text \<open>
  \<^verbatim>\<open>pano_to_equirectangular\<close> is the same function in \<^verbatim>\<open>app.py\<close> and in
  \<^verbatim>\<open>stitch_images.py\<close> (the batch tool also prints two progress lines). The state of
  its two loops is the pair \<open>(x_map, y_map)\<close>.
\<close>

type_synonym maps = "rat ndarray \<times> rat ndarray"

text \<open>The invariant of the two loops: both maps are \<open>n\<close> rows of \<open>k\<close> entries.\<close>

definition maps_inv :: "nat \<Rightarrow> nat \<Rightarrow> maps \<Rightarrow> bool" where
  "maps_inv n k m = (wf_array (fst m) \<and> wf_array (snd m) \<and> shape0 (fst m) = n \<and> shape1 (fst m) = k
                      \<and> shape0 (snd m) = n \<and> shape1 (snd m) = k)"

text \<open>The body of the inner loop, for the pixel \<open>(x, y)\<close>.\<close>

definition pixel_step :: "nat \<Rightarrow> nat \<Rightarrow> int \<Rightarrow> rat \<Rightarrow> nat \<Rightarrow> nat \<Rightarrow> maps \<Rightarrow> error + maps" where
  "pixel_step w h output_w theta y x m =
     ebind (true_div (int x) output_w) (\<lambda>q.
       let phi = fmul (fmul (fsub q (1/2)) 2) np_pi in
       ebind (fdiv phi np_pi) (\<lambda>a.
         let xs = fmul (fmul (1/2) (int_to_float (int w))) (fadd a 1) in
         ebind (fdiv np_pi 2) (\<lambda>half_pi.
           ebind (fdiv theta half_pi) (\<lambda>b.
             let ys = fmul (fmul (1/2) (int_to_float (int h))) (fadd b 1) in
             ebind (setitem32 (fst m) y x xs) (\<lambda>x_map.
               ebind (setitem32 (snd m) y x ys) (\<lambda>y_map.
                 Inr (x_map, y_map)))))))"

fun inner_loop :: "nat \<Rightarrow> nat \<Rightarrow> int \<Rightarrow> rat \<Rightarrow> nat \<Rightarrow> nat list \<Rightarrow> maps \<Rightarrow> error + maps" where
  "inner_loop w h output_w theta y [] m = Inr m"
| "inner_loop w h output_w theta y (x # xs) m =
     ebind (pixel_step w h output_w theta y x m) (inner_loop w h output_w theta y xs)"

text \<open>The body of the outer loop, for the row \<open>y\<close>.\<close>

definition row_step :: "nat \<Rightarrow> nat \<Rightarrow> int \<Rightarrow> int \<Rightarrow> nat \<Rightarrow> maps \<Rightarrow> error + maps" where
  "row_step w h output_w output_h y m =
     ebind (true_div (int y) output_h) (\<lambda>q.
       let theta = fmul (fsub q (1/2)) np_pi in
       inner_loop w h output_w theta y [0..<nat output_w] m)"

fun outer_loop :: "nat \<Rightarrow> nat \<Rightarrow> int \<Rightarrow> int \<Rightarrow> nat list \<Rightarrow> maps \<Rightarrow> error + maps" where
  "outer_loop w h output_w output_h [] m = Inr m"
| "outer_loop w h output_w output_h (y # ys) m =
     ebind (row_step w h output_w output_h y m) (outer_loop w h output_w output_h ys)"

text \<open>
  The part of \<^verbatim>\<open>pano_to_equirectangular\<close> before the call of \<^verbatim>\<open>cv2.remap\<close>: the two
  maps are allocated (\<^verbatim>\<open>np.zeros\<close> refuses a negative dimension) and filled.
\<close>

definition build_maps :: "nat \<Rightarrow> nat \<Rightarrow> int \<Rightarrow> int \<Rightarrow> error + maps" where
  "build_maps w h output_w output_h =
     (if output_w < 0 \<or> output_h < 0
      then Inl (ValueError ''negative dimensions are not allowed'')
      else outer_loop w h output_w output_h [0..<nat output_h]
             (np_zeros (nat output_h) (nat output_w), np_zeros (nat output_h) (nat output_w)))"

text \<open>
  \<^verbatim>\<open>cv2.remap\<close> belongs to the image library. It refuses empty maps, and it refuses a
  destination or a source with a side of \<^verbatim>\<open>SHRT_MAX\<close> (32767) pixels or more; in both
  cases it raises \<^verbatim>\<open>cv2.error\<close>, whose message names the failed assertion (the library
  puts its version and source position before it). Otherwise the destination has the
  size of the maps and its pixel \<open>(x, y)\<close> is the source sampled at
  \<open>(x_map[y, x], y_map[y, x])\<close>; the sampling itself (bilinear, with wrapped borders) is
  the parameter \<open>sample\<close>.
\<close>

definition SHRT_MAX :: nat where
  "SHRT_MAX = 32767"

definition resample :: "('px ndarray \<Rightarrow> rat \<Rightarrow> rat \<Rightarrow> 'px) \<Rightarrow> 'px ndarray \<Rightarrow> rat ndarray \<Rightarrow> rat ndarray \<Rightarrow> 'px ndarray" where
  "resample sample src x_map y_map =
     \<lparr>shape0 = shape0 x_map, shape1 = shape1 x_map,
      cells = map (\<lambda>(xr, yr). map (\<lambda>(xs, ys). sample src xs ys) (zip xr yr))
                  (zip (cells x_map) (cells y_map))\<rparr>"

definition remap :: "('px ndarray \<Rightarrow> rat \<Rightarrow> rat \<Rightarrow> 'px) \<Rightarrow> 'px ndarray \<Rightarrow> rat ndarray \<Rightarrow> rat ndarray \<Rightarrow> error + 'px ndarray" where
  "remap sample src x_map y_map =
     (if shape0 x_map = 0 \<or> shape1 x_map = 0
      then Inl (Cv2Error ''(-215:Assertion failed) !_map1.empty() in function remap'')
      else if \<not> (shape1 x_map < SHRT_MAX \<and> shape0 x_map < SHRT_MAX
                  \<and> shape1 src < SHRT_MAX \<and> shape0 src < SHRT_MAX)
      then Inl (Cv2Error (''(-215:Assertion failed) dst.cols < SHRT_MAX && dst.rows < SHRT_MAX ''
                          @ ''&& src.cols < SHRT_MAX && src.rows < SHRT_MAX in function remap''))
      else Inr (resample sample src x_map y_map))"

definition pano_to_equirectangular ::
  "('px ndarray \<Rightarrow> rat \<Rightarrow> rat \<Rightarrow> 'px) \<Rightarrow> 'px ndarray \<Rightarrow> int \<Rightarrow> int \<Rightarrow> error + 'px ndarray" where
  "pano_to_equirectangular sample pano output_w output_h =
     (let h = shape0 pano; w = shape1 pano in
      ebind (build_maps w h output_w output_h) (\<lambda>m.
        remap sample pano (fst m) (snd m)))"

definition default_output_w :: int where
  "default_output_w = 2048"

definition default_output_h :: int where
  "default_output_h = 1024"

subsection \<open>The formula of the specification\<close>

text \<open>
  The specification gives the source coordinate of the output pixel \<open>(x, y)\<close> as
  \<^verbatim>\<open>theta = (y / output_height - 0.5) * pi\<close>,
  \<^verbatim>\<open>phi = (x / output_width - 0.5) * 2pi\<close>,
  \<^verbatim>\<open>x_src = 0.5 * pano_width * (phi / pi + 1)\<close> and
  \<^verbatim>\<open>y_src = 0.5 * pano_height * (theta / (pi/2) + 1)\<close>.
  These definitions follow that text, in float arithmetic.
\<close>

definition spec_theta :: "int \<Rightarrow> int \<Rightarrow> rat" where
  "spec_theta y output_height = fmul (fsub (f64 (of_int y / of_int output_height)) (1/2)) np_pi"

definition spec_phi :: "int \<Rightarrow> int \<Rightarrow> rat" where
  "spec_phi x output_width = fmul (fmul (fsub (f64 (of_int x / of_int output_width)) (1/2)) 2) np_pi"

definition spec_x_src :: "nat \<Rightarrow> rat \<Rightarrow> rat" where
  "spec_x_src pano_width phi =
     fmul (fmul (1/2) (f64 (of_nat pano_width))) (fadd (f64 (phi / np_pi)) 1)"

definition spec_y_src :: "nat \<Rightarrow> rat \<Rightarrow> rat" where
  "spec_y_src pano_height theta =
     fmul (fmul (1/2) (f64 (of_nat pano_height))) (fadd (f64 (theta / f64 (np_pi / 2))) 1)"

text \<open>
  The same formula over the real numbers, with the real \<open>pi\<close>: what the floats
  approximate.
\<close>

definition exact_x_src :: "nat \<Rightarrow> int \<Rightarrow> int \<Rightarrow> real" where
  "exact_x_src pano_width x output_width =
     1/2 * of_nat pano_width * ((of_int x / of_int output_width - 1/2) * 2 * pi / pi + 1)"

definition exact_y_src :: "nat \<Rightarrow> int \<Rightarrow> int \<Rightarrow> real" where
  "exact_y_src pano_height y output_height =
     1/2 * of_nat pano_height * ((of_int y / of_int output_height - 1/2) * pi / (pi / 2) + 1)"

section \<open>Strings\<close>

text \<open>\<^verbatim>\<open>str(n)\<close> for an int: its decimal digits, with a minus sign when negative.\<close>

definition digit_char :: "nat \<Rightarrow> char" where
  "digit_char d = ''0123456789'' ! d"

function str_nat :: "nat \<Rightarrow> string" where
  "str_nat n = (if n < 10 then [digit_char n] else str_nat (n div 10) @ [digit_char (n mod 10)])"
  by pat_completeness auto
termination
  by (relation "measure id") auto

declare str_nat.simps [simp del]

definition str_int :: "int \<Rightarrow> string" where
  "str_int i = (if i < 0 then ''-'' @ str_nat (nat (- i)) else str_nat (nat i))"

text \<open>
  \<^verbatim>\<open>Path.suffix\<close> of the standard library: the part of the file name from its last dot
  on, or the empty string when the name has no dot, begins with its only dot or ends
  with a dot.
\<close>

definition rfind :: "char \<Rightarrow> string \<Rightarrow> nat option" where
  "rfind c s = (if c \<in> set s
                then Some (length s - 1 - length (takeWhile (\<lambda>x. x \<noteq> c) (rev s)))
                else None)"

definition path_suffix :: "string \<Rightarrow> string" where
  "path_suffix name =
     (case rfind (CHR ''.'') name of
        None \<Rightarrow> []
      | Some i \<Rightarrow> if 0 < i \<and> i < length name - 1 then drop i name else [])"

text \<open>\<^verbatim>\<open>str(folder / name)\<close> for a folder path in normal form.\<close>

definition path_join :: "string \<Rightarrow> string \<Rightarrow> string" where
  "path_join folder name = folder @ ''/'' @ name"

section \<open>Loading the images of a folder\<close>

text \<open>
  The file system as the loader sees it. A path is missing, is a file, or is a directory
  with its entries. For an entry, \<open>entry_is_file\<close> is \<^verbatim>\<open>Path.is_file()\<close> and
  \<open>entry_image\<close> is what \<^verbatim>\<open>cv2.imread\<close> returns for it (\<open>None\<close> when it cannot
  decode the file).
\<close>

record 'px dir_entry =
  entry_name :: string
  entry_is_file :: bool
  entry_image :: "'px ndarray option"

datatype 'px fs_node = RegularFile | Directory "'px dir_entry list"

type_synonym 'px filesystem = "string \<Rightarrow> 'px fs_node option"

text \<open>What \<^verbatim>\<open>Path.iterdir\<close> raises on a path that is a file.\<close>

definition not_a_directory :: "string \<Rightarrow> error" where
  "not_a_directory path =
     NotADirectoryError (''[Errno 20] Not a directory: '' @ [CHR 0x27] @ path @ [CHR 0x27])"

definition image_extensions :: "string set" where
  "image_extensions = {''.jpg'', ''.jpeg'', ''.png'', ''.JPG'', ''.JPEG'', ''.PNG''}"

text \<open>
  The list \<^verbatim>\<open>image_files\<close>: the entries that are files with a supported suffix,
  sorted. The paths share their folder, so they are ordered by file name, and strings
  are ordered lexicographically by character code.
\<close>

definition image_files :: "'px dir_entry list \<Rightarrow> 'px dir_entry list" where
  "image_files entries =
     sort_key entry_name
       (filter (\<lambda>f. entry_is_file f \<and> path_suffix (entry_name f) \<in> image_extensions) entries)"

text \<open>
  The loading loop of \<^verbatim>\<open>app.py\<close>. The state is the list \<^verbatim>\<open>images\<close> and the lines
  printed so far.
\<close>

fun app_load_loop :: "string \<Rightarrow> 'px dir_entry list \<Rightarrow> 'px ndarray list \<times> string list
    \<Rightarrow> 'px ndarray list \<times> string list" where
  "app_load_loop folder [] st = st"
| "app_load_loop folder (f # fs) (images, out) =
     (case entry_image f of
        Some img \<Rightarrow> app_load_loop folder fs (images @ [img], out)
      | None \<Rightarrow> app_load_loop folder fs
          (images, out @ [''Warning: Could not load '' @ path_join folder (entry_name f)]))"

definition app_load_images_from_folder ::
  "'px filesystem \<Rightarrow> string \<Rightarrow> (error + 'px ndarray list) \<times> string list" where
  "app_load_images_from_folder fs folder_path =
     (case fs folder_path of
        None \<Rightarrow> (Inl (ValueError (''Folder '' @ folder_path @ '' does not exist'')), [])
      | Some RegularFile \<Rightarrow> (Inl (not_a_directory folder_path), [])
      | Some (Directory entries) \<Rightarrow>
          let files = image_files entries in
          if length files < 2
          then (Inl (ValueError (''Need at least 2 images, found '' @ str_nat (length files))), [])
          else
            let (images, out) = app_load_loop folder_path files ([], []) in
            if length images < 2
            then (Inl (ValueError (''Successfully loaded only '' @ str_nat (length images)
                                   @ '' images, need at least 2'')), out)
            else (Inr images, out))"

text \<open>
  The loader of \<^verbatim>\<open>stitch_images.py\<close> is the same code with more output: a line before
  each file and a line with the size of each decoded image. The check mark and the
  cross it prints are given by their UTF-8 bytes.
\<close>

definition check_mark :: string where
  "check_mark = [CHR 0xE2, CHR 0x9C, CHR 0x93]"

definition cross_mark :: string where
  "cross_mark = [CHR 0xE2, CHR 0x9C, CHR 0x97]"

fun batch_load_loop :: "string \<Rightarrow> 'px dir_entry list \<Rightarrow> 'px ndarray list \<times> string list
    \<Rightarrow> 'px ndarray list \<times> string list" where
  "batch_load_loop folder [] st = st"
| "batch_load_loop folder (f # fs) (images, out) =
     (let out1 = out @ [''Loading '' @ entry_name f @ ''...''] in
      case entry_image f of
        Some img \<Rightarrow> batch_load_loop folder fs
          (images @ [img],
           out1 @ [''  '' @ check_mark @ '' Loaded: '' @ str_nat (shape1 img) @ ''x'' @ str_nat (shape0 img)])
      | None \<Rightarrow> batch_load_loop folder fs
          (images,
           out1 @ [''  '' @ cross_mark @ '' Warning: Could not load '' @ path_join folder (entry_name f)]))"

definition batch_load_images_from_folder ::
  "'px filesystem \<Rightarrow> string \<Rightarrow> (error + 'px ndarray list) \<times> string list" where
  "batch_load_images_from_folder fs folder_path =
     (case fs folder_path of
        None \<Rightarrow> (Inl (ValueError (''Folder '' @ folder_path @ '' does not exist'')), [])
      | Some RegularFile \<Rightarrow> (Inl (not_a_directory folder_path), [])
      | Some (Directory entries) \<Rightarrow>
          let files = image_files entries in
          if length files < 2
          then (Inl (ValueError (''Need at least 2 images, found '' @ str_nat (length files))), [])
          else
            let (images, out) = batch_load_loop folder_path files ([], []) in
            if length images < 2
            then (Inl (ValueError (''Successfully loaded only '' @ str_nat (length images)
                                   @ '' images, need at least 2'')), out)
            else (Inr images, out))"

subsection \<open>The extension rule of the specification\<close>

text \<open>
  The specification selects an entry when its extension is \<open>jpg\<close>, \<open>jpeg\<close> or \<open>png\<close>
  under case-insensitive comparison.
\<close>

definition lower_char :: "char \<Rightarrow> char" where
  "lower_char c = (if CHR ''A'' \<le> c \<and> c \<le> CHR ''Z'' then char_of (of_char c + (32::nat)) else c)"

definition spec_extension_matches :: "string \<Rightarrow> bool" where
  "spec_extension_matches name =
     (map lower_char (path_suffix name) \<in> {''.jpg'', ''.jpeg'', ''.png''})"

section \<open>Stitching\<close>

text \<open>
  The stitching engine is \<^verbatim>\<open>cv2.Stitcher\<close>. The build of the library decides which
  modes exist (\<^verbatim>\<open>cv2.Stitcher_SCANS\<close>, \<^verbatim>\<open>cv2.Stitcher_PANORAMA\<close>); \<open>run_stitcher\<close> is
  \<^verbatim>\<open>Stitcher_create(mode).stitch(images)\<close>, which returns a status and a panorama. Its
  second argument counts the calls made before in the same operation, so that a second
  attempt may differ from the first. The status \<^verbatim>\<open>cv2.Stitcher_OK\<close> is 0.
\<close>

datatype stitch_mode = SCANS | PANORAMA

record ('img, 'pano) cv2_env =
  has_SCANS :: bool
  has_PANORAMA :: bool
  run_stitcher :: "stitch_mode \<Rightarrow> nat \<Rightarrow> 'img list \<Rightarrow> int \<times> 'pano"

definition Stitcher_OK :: int where
  "Stitcher_OK = 0"

definition no_attribute :: "string \<Rightarrow> error" where
  "no_attribute name =
     AttributeError (''module '' @ [CHR 0x27] @ ''cv2'' @ [CHR 0x27] @ '' has no attribute ''
                     @ [CHR 0x27] @ name @ [CHR 0x27])"

text \<open>
  \<^verbatim>\<open>stitch_images\<close> of \<^verbatim>\<open>app.py\<close>. The second component of the result is the list of
  the engine runs, in order.
\<close>

definition app_stitch_images ::
  "('img, 'pano) cv2_env \<Rightarrow> 'img list \<Rightarrow> (error + 'pano) \<times> stitch_mode list" where
  "app_stitch_images env images =
     (if \<not> has_PANORAMA env then (Inl (no_attribute ''Stitcher_PANORAMA''), [])
      else
        let (status, pano) = run_stitcher env PANORAMA 0 images in
        if status \<noteq> Stitcher_OK
        then (Inl (RuntimeError (''Stitching failed with status '' @ str_int status)), [PANORAMA])
        else (Inr pano, [PANORAMA]))"

text \<open>
  \<^verbatim>\<open>stitch_images\<close> of \<^verbatim>\<open>stitch_images.py\<close>. Its progress lines are not modelled. The
  table \<^verbatim>\<open>error_codes\<close> and the message built from it:
\<close>

definition error_codes :: "int \<rightharpoonup> string" where
  "error_codes = [1 \<mapsto> ''Need more images or insufficient overlap'',
                  2 \<mapsto> ''Homography estimation failed - images may not have enough matching features'',
                  3 \<mapsto> ''Camera parameter adjustment failed'']"

definition error_msg :: "int \<Rightarrow> string" where
  "error_msg status =
     (case error_codes status of
        Some msg \<Rightarrow> msg
      | None \<Rightarrow> ''Stitching failed with status code: '' @ str_int status)"

text \<open>
  The stitcher is created in SCANS mode; when that raises, the bare \<^verbatim>\<open>except\<close> creates
  it in PANORAMA mode instead.
\<close>

definition first_mode :: "('img, 'pano) cv2_env \<Rightarrow> error + stitch_mode" where
  "first_mode env =
     (if has_SCANS env then Inr SCANS
      else if has_PANORAMA env then Inr PANORAMA
      else Inl (no_attribute ''Stitcher_PANORAMA''))"

definition batch_stitch_images ::
  "('img, 'pano) cv2_env \<Rightarrow> 'img list \<Rightarrow> (error + 'pano) \<times> stitch_mode list" where
  "batch_stitch_images env images =
     (case first_mode env of
        Inl e \<Rightarrow> (Inl e, [])
      | Inr mode \<Rightarrow>
          let (status, pano) = run_stitcher env mode 0 images in
          if status \<noteq> Stitcher_OK then
            (if has_PANORAMA env then
               let (status2, pano2) = run_stitcher env PANORAMA 1 images in
               if status2 \<noteq> Stitcher_OK
               then (Inl (RuntimeError (error_msg status2)), [mode, PANORAMA])
               else (Inr pano2, [mode, PANORAMA])
             else (Inl (RuntimeError (error_msg status)), [mode]))
          else (Inr pano, [mode]))"

subsection \<open>The failure kinds of the specification\<close>

text \<open>
  The specification classifies the status of a failed engine run: 1 is insufficient
  overlap, 2 a failed homography estimation, 3 a failed camera parameter adjustment, and
  any other status an unknown failure that carries the code. \<open>failure_text\<close> is the
  message by which the batch tool reports each kind.
\<close>

datatype stitch_failure =
    InsufficientOverlap
  | HomographyEstimationFailed
  | CameraParameterAdjustmentFailed
  | UnknownEngineFailure int

definition classify :: "int \<Rightarrow> stitch_failure" where
  "classify status =
     (if status = 1 then InsufficientOverlap
      else if status = 2 then HomographyEstimationFailed
      else if status = 3 then CameraParameterAdjustmentFailed
      else UnknownEngineFailure status)"

fun failure_text :: "stitch_failure \<Rightarrow> string" where
  "failure_text InsufficientOverlap = ''Need more images or insufficient overlap''"
| "failure_text HomographyEstimationFailed =
     ''Homography estimation failed - images may not have enough matching features''"
| "failure_text CameraParameterAdjustmentFailed = ''Camera parameter adjustment failed''"
| "failure_text (UnknownEngineFailure code) = ''Stitching failed with status code: '' @ str_int code"

section \<open>The HTTP service\<close>

text \<open>
  The codec functions of the image library: \<^verbatim>\<open>cv2.imdecode\<close> returns \<open>None\<close> for bytes
  it cannot decode and raises \<^verbatim>\<open>cv2.error\<close> for an empty buffer, \<^verbatim>\<open>cv2.imencode\<close> may
  raise, and \<open>bilinear_wrap\<close> is the sampling that \<^verbatim>\<open>cv2.remap\<close> is called with.
\<close>

record ('px, 'bytes) codec =
  imdecode :: "'bytes \<Rightarrow> error + 'px ndarray option"
  imencode :: "'px ndarray \<Rightarrow> nat \<Rightarrow> error + 'bytes"
  bilinear_wrap :: "'px ndarray \<Rightarrow> rat \<Rightarrow> rat \<Rightarrow> 'px"

text \<open>What a request does to the world, in order.\<close>

datatype event =
    Print string
  | EngineRun stitch_mode
  | Imwrite string
  | Imencode





text \<open>
  The statements from the stitching on, which both handlers share up to the optional
  write and the file name: stitch, project with the default size, save when asked,
  encode at quality 95.
\<close>

definition stitch_project_encode ::
  "('px, 'bytes) codec \<Rightarrow> ('px ndarray, 'px ndarray) cv2_env \<Rightarrow> 'px ndarray list \<Rightarrow> string option
     \<Rightarrow> (error + 'bytes) \<times> event list" where
  "stitch_project_encode cd env cv_images save_to =
     (let (r, runs) = app_stitch_images env cv_images; ev = map EngineRun runs in
      case r of
        Inl e \<Rightarrow> (Inl e, ev)
      | Inr pano \<Rightarrow>
          (case pano_to_equirectangular (bilinear_wrap cd) pano default_output_w default_output_h of
             Inl e \<Rightarrow> (Inl e, ev)
           | Inr equirect \<Rightarrow>
               let ev2 = (case save_to of
                            None \<Rightarrow> ev
                          | Some path \<Rightarrow> ev @ [Imwrite path, Print (''Saved stitched image to '' @ path)])
               in (imencode cd equirect 95, ev2 @ [Imencode])))"






section \<open>Example inputs\<close>

text \<open>
  Concrete engines, codecs and folders on which the functions above are run: an engine
  build that succeeds in SCANS mode only, one that fails with status 1 in every mode,
  one without SCANS whose second run succeeds, a codec that cannot decode the byte
  string 0, and a folder with three files.
\<close>

definition example_image :: "nat ndarray" where
  "example_image = \<lparr>shape0 = 1, shape1 = 2, cells = [[10, 20]]\<rparr>"

definition scans_only_env :: "(nat ndarray, nat ndarray) cv2_env" where
  "scans_only_env =
     \<lparr>has_SCANS = True, has_PANORAMA = True,
      run_stitcher = (\<lambda>mode n images. if mode = SCANS then (0, example_image) else (1, example_image))\<rparr>"

definition failing_env :: "(nat ndarray, nat ndarray) cv2_env" where
  "failing_env =
     \<lparr>has_SCANS = True, has_PANORAMA = True,
      run_stitcher = (\<lambda>mode n images. (1, example_image))\<rparr>"

definition no_scans_env :: "(nat ndarray, nat ndarray) cv2_env" where
  "no_scans_env =
     \<lparr>has_SCANS = False, has_PANORAMA = True,
      run_stitcher = (\<lambda>mode n images. if n = 0 then (3, example_image) else (0, example_image))\<rparr>"

definition example_codec :: "(nat, nat) codec" where
  "example_codec =
     \<lparr>imdecode = (\<lambda>b. if b = 0 then Inr None else Inr (Some example_image)),
      imencode = (\<lambda>img quality. Inr 7),
      bilinear_wrap = (\<lambda>src xs ys. 0)\<rparr>"

text \<open>A panorama of one row that is as wide as \<^verbatim>\<open>cv2.remap\<close> no longer accepts.\<close>

definition wide_panorama :: "nat ndarray" where
  "wide_panorama = \<lparr>shape0 = 1, shape1 = 32767, cells = [replicate 32767 0]\<rparr>"

definition example_entries :: "nat dir_entry list" where
  "example_entries =
     [\<lparr>entry_name = ''b.png'', entry_is_file = True, entry_image = Some example_image\<rparr>,
      \<lparr>entry_name = ''a.Jpg'', entry_is_file = True, entry_image = Some example_image\<rparr>,
      \<lparr>entry_name = ''a.JPG'', entry_is_file = True, entry_image = None\<rparr>]"

definition example_fs :: "nat filesystem" where
  "example_fs = (\<lambda>p. if p = ''Images'' then Some (Directory example_entries) else None)"

section \<open>Properties of the rounding\<close>

lemma rne_cases: "rne q = \<lfloor>q\<rfloor> \<or> rne q = \<lfloor>q\<rfloor> + 1"
  by (simp add: rne_def Let_def)

lemma rne_of_int: "rne (of_int n) = n"
  by (simp add: rne_def)

lemma rne_mono:
  assumes "x \<le> y"
  shows "rne x \<le> rne y"
proof (cases "\<lfloor>x\<rfloor> = \<lfloor>y\<rfloor>")
  case True
  with assms show ?thesis
    by (auto simp: rne_def Let_def)
next
  case False
  with assms have "\<lfloor>x\<rfloor> + 1 \<le> \<lfloor>y\<rfloor>"
    using floor_mono [of x y] by linarith
  moreover have "rne x \<le> \<lfloor>x\<rfloor> + 1" using rne_cases [of x] by linarith
  moreover have "\<lfloor>y\<rfloor> \<le> rne y" using rne_cases [of y] by linarith
  ultimately show ?thesis by linarith
qed

lemma rne_uminus: "rne (- x) = - rne x"
proof (cases "x = of_int \<lfloor>x\<rfloor>")
  case True
  then obtain n where "x = of_int n" ..
  then have "rne (- x) = rne (of_int (- n))" by simp
  also have "\<dots> = - n" by (rule rne_of_int)
  finally show ?thesis using \<open>x = of_int n\<close> by (simp add: rne_of_int)
next
  case False
  then have nz: "x \<notin> \<int>" by (auto elim!: Ints_cases)
  have fl: "\<lfloor>- x\<rfloor> = - \<lfloor>x\<rfloor> - 1"
    using False by (simp add: floor_minus ceiling_altdef)
  show ?thesis
    unfolding rne_def Let_def fl by (auto simp: algebra_simps)
qed

lemma rne_ge: "of_int n \<le> x \<Longrightarrow> n \<le> rne x"
  using rne_mono [of "of_int n" x] by (simp add: rne_of_int)

lemma rne_le: "x \<le> of_int n \<Longrightarrow> rne x \<le> n"
  using rne_mono [of x "of_int n"] by (simp add: rne_of_int)

lemma pow2_less_imp:
  assumes "(2::rat) powi m < 2 powi n"
  shows "m < n"
proof (rule ccontr)
  assume "\<not> m < n"
  then have "(2::rat) powi n \<le> 2 powi m" by (intro power_int_increasing) simp_all
  with assms show False by simp
qed

lemma expo_bounds:
  assumes "q \<noteq> 0"
  shows "2 powi (expo q) \<le> \<bar>q\<bar>" and "\<bar>q\<bar> < 2 powi (expo q + 1)"
proof -
  obtain a b where ab: "quotient_of \<bar>q\<bar> = (a, b)" by (cases "quotient_of \<bar>q\<bar>")
  have bpos: "0 < b" using ab by (rule quotient_of_denom_pos)
  have qeq: "\<bar>q\<bar> = of_int a / of_int b" using ab by (rule quotient_of_div)
  have apos: "0 < a"
  proof -
    have "0 < \<bar>q\<bar>" using assms by simp
    then have "0 < (of_int a :: rat) / of_int b" using qeq by simp
    then show ?thesis using bpos by (simp add: zero_less_divide_iff)
  qed
  define la where "la = bitlen a"
  define lb where "lb = bitlen b"
  have la: "2 ^ nat (la - 1) \<le> a" "a < 2 ^ nat la"
    using bitlen_bounds [OF apos] by (simp_all add: la_def)
  have lb: "2 ^ nat (lb - 1) \<le> b" "b < 2 ^ nat lb"
    using bitlen_bounds [OF bpos] by (simp_all add: lb_def)
  have la1: "1 \<le> la" using apos bitlen_eq_zero_iff [of a] bitlen_nonneg [of a] by (simp add: la_def)
  have lb1: "1 \<le> lb" using bpos bitlen_eq_zero_iff [of b] bitlen_nonneg [of b] by (simp add: lb_def)
  have ra: "(2::rat) powi (la - 1) \<le> of_int a" "(of_int a :: rat) < 2 powi la"
  proof -
    have "(of_int (2 ^ nat (la - 1)) :: rat) \<le> of_int a" using la(1) by (simp only: of_int_le_iff)
    then show "(2::rat) powi (la - 1) \<le> of_int a" using la1 by (simp add: power_int_def)
    have "(of_int a :: rat) < of_int (2 ^ nat la)" using la(2) by (simp only: of_int_less_iff)
    then show "(of_int a :: rat) < 2 powi la" using la1 by (simp add: power_int_def)
  qed
  have rb: "(2::rat) powi (lb - 1) \<le> of_int b" "(of_int b :: rat) < 2 powi lb"
  proof -
    have "(of_int (2 ^ nat (lb - 1)) :: rat) \<le> of_int b" using lb(1) by (simp only: of_int_le_iff)
    then show "(2::rat) powi (lb - 1) \<le> of_int b" using lb1 by (simp add: power_int_def)
    have "(of_int b :: rat) < of_int (2 ^ nat lb)" using lb(2) by (simp only: of_int_less_iff)
    then show "(of_int b :: rat) < 2 powi lb" using lb1 by (simp add: power_int_def)
  qed
  define d where "d = la - lb"
  have rbpos: "(0::rat) < of_int b" using bpos by simp
  have p2pos: "\<And>k. (0::rat) < 2 powi k" by simp
  have lo: "(2::rat) powi (d - 1) \<le> \<bar>q\<bar>"
  proof -
    have "(2::rat) powi (d - 1) * of_int b \<le> 2 powi (d - 1) * 2 powi lb"
      using rb(2) by (intro mult_left_mono) simp_all
    also have "\<dots> = 2 powi (la - 1)"
      by (simp add: d_def power_int_add [symmetric])
    also have "\<dots> \<le> of_int a" by (rule ra(1))
    finally show ?thesis using rbpos by (simp add: qeq pos_le_divide_eq)
  qed
  have hi: "\<bar>q\<bar> < (2::rat) powi (d + 1)"
  proof -
    have "(of_int a :: rat) < 2 powi la" by (rule ra(2))
    also have "\<dots> = 2 powi (d + 1) * 2 powi (lb - 1)"
      by (simp add: d_def power_int_add [symmetric])
    also have "\<dots> \<le> 2 powi (d + 1) * of_int b"
      using rb(1) by (intro mult_left_mono) simp_all
    finally show ?thesis using rbpos by (simp add: qeq pos_divide_less_eq)
  qed
  have ex: "expo q = (if 2 powi d \<le> \<bar>q\<bar> then d else d - 1)"
    by (simp add: expo_def ab Let_def d_def la_def lb_def)
  show "2 powi (expo q) \<le> \<bar>q\<bar>" using lo by (simp add: ex)
  show "\<bar>q\<bar> < 2 powi (expo q + 1)" using hi by (auto simp: ex not_le)
qed


lemma expo_uminus: "expo (- q) = expo q"
  by (simp add: expo_def)

lemma expo_mono:
  assumes "0 < x" and "x \<le> y"
  shows "expo x \<le> expo y"
proof -
  have "(2::rat) powi (expo x) \<le> \<bar>x\<bar>" using assms by (intro expo_bounds) simp
  also have "\<dots> \<le> \<bar>y\<bar>" using assms by simp
  also have "\<dots> < 2 powi (expo y + 1)" using assms by (intro expo_bounds) simp
  finally have "expo x < expo y + 1" by (rule pow2_less_imp)
  then show ?thesis by simp
qed

lemma round_to_uminus: "round_to p (- q) = - round_to p q"
  by (simp add: round_to_def expo_uminus rne_uminus Let_def)

lemma round_to_pos_bounds:
  assumes "0 < x" and "0 < p"
  shows "2 powi (expo x) \<le> round_to p x" and "round_to p x \<le> 2 powi (expo x + 1)"
proof -
  define u :: rat where "u = 2 powi (expo x - int p + 1)"
  have upos: "0 < u" by (simp add: u_def)
  have nz: "x \<noteq> 0" using assms by simp
  have r: "round_to p x = of_int (rne (x / u)) * u"
    using nz by (simp add: round_to_def u_def Let_def)
  have b: "2 powi (expo x) \<le> x" "x < 2 powi (expo x + 1)"
    using expo_bounds [OF nz] assms by simp_all
  have lo_u: "2 powi (expo x) = of_int (2 ^ (p - 1)) * u"
  proof -
    have "(of_int (2 ^ (p - 1)) :: rat) = 2 powi (int p - 1)"
      using assms(2) by (simp add: power_int_def nat_diff_distrib')
    then show ?thesis by (simp add: u_def power_int_add [symmetric])
  qed
  have hi_u: "2 powi (expo x + 1) = of_int (2 ^ p) * u"
  proof -
    have "(2::rat) powi (expo x + 1) = 2 powi (int p) * u"
      unfolding u_def using power_int_add [of "2::rat" "int p" "expo x - int p + 1"] by simp
    then show ?thesis by simp
  qed
  have "of_int (2 ^ (p - 1)) \<le> x / u"
    using b(1) upos by (simp add: lo_u pos_le_divide_eq)
  then have "2 ^ (p - 1) \<le> rne (x / u)" by (rule rne_ge)
  then have "(of_int (2 ^ (p - 1)) :: rat) \<le> of_int (rne (x / u))" by (simp only: of_int_le_iff)
  then have "of_int (2 ^ (p - 1)) * u \<le> of_int (rne (x / u)) * u"
    using upos by (intro mult_right_mono) simp_all
  then show "2 powi (expo x) \<le> round_to p x" by (simp only: r lo_u)
  have "x / u \<le> of_int (2 ^ p)"
    using b(2) upos by (simp add: hi_u pos_divide_le_eq)
  then have "rne (x / u) \<le> 2 ^ p" by (rule rne_le)
  then have "(of_int (rne (x / u)) :: rat) \<le> of_int (2 ^ p)" by (simp only: of_int_le_iff)
  then have "of_int (rne (x / u)) * u \<le> of_int (2 ^ p) * u"
    using upos by (intro mult_right_mono) simp_all
  then show "round_to p x \<le> 2 powi (expo x + 1)" by (simp only: r hi_u)
qed

lemma round_to_pos: "0 < x \<Longrightarrow> 0 < p \<Longrightarrow> 0 < round_to p x"
  using round_to_pos_bounds(1) [of x p] zero_less_power_int [of "2::rat" "expo x"]
  by linarith

lemma round_to_mono_pos:
  assumes "0 < x" and "x \<le> y" and "0 < p"
  shows "round_to p x \<le> round_to p y"
proof (cases "expo x = expo y")
  case True
  define u :: rat where "u = 2 powi (expo x - int p + 1)"
  have upos: "0 < u" by (simp add: u_def)
  have "x / u \<le> y / u" using assms(2) upos by (simp add: divide_right_mono)
  then have "rne (x / u) \<le> rne (y / u)" by (rule rne_mono)
  then have "(of_int (rne (x / u)) :: rat) \<le> of_int (rne (y / u))" by (simp only: of_int_le_iff)
  then have "of_int (rne (x / u)) * u \<le> of_int (rne (y / u)) * u"
    using upos by (intro mult_right_mono) simp_all
  then show ?thesis using assms True by (simp add: round_to_def u_def Let_def)
next
  case False
  have ypos: "0 < y" using assms by simp
  have "expo x \<le> expo y" using assms by (intro expo_mono)
  with False have "expo x + 1 \<le> expo y" by simp
  then have "(2::rat) powi (expo x + 1) \<le> 2 powi (expo y)"
    by (intro power_int_increasing) simp_all
  moreover have "round_to p x \<le> 2 powi (expo x + 1)"
    using assms by (intro round_to_pos_bounds)
  moreover have "2 powi (expo y) \<le> round_to p y"
    using ypos assms(3) by (intro round_to_pos_bounds)
  ultimately show ?thesis by linarith
qed

lemma round_to_mono:
  assumes "x \<le> y" and "0 < p"
  shows "round_to p x \<le> round_to p y"
proof -
  consider "0 < x" | "x = 0" | "x < 0" "y < 0" | "x < 0" "0 \<le> y" by linarith
  then show ?thesis
  proof cases
    case 1
    then show ?thesis using assms by (intro round_to_mono_pos)
  next
    case 2
    show ?thesis
    proof (cases "y = 0")
      case True
      with 2 show ?thesis by simp
    next
      case False
      with 2 assms have "0 < y" by simp
      then have "0 < round_to p y" using assms(2) by (rule round_to_pos)
      then show ?thesis using 2 by (simp add: round_to_def)
    qed
  next
    case 3
    then have "round_to p (- y) \<le> round_to p (- x)"
      using assms by (intro round_to_mono_pos) simp_all
    then show ?thesis by (simp add: round_to_uminus)
  next
    case 4
    have "0 < round_to p (- x)" using 4 assms(2) by (intro round_to_pos) simp_all
    then have "round_to p x < 0" by (simp add: round_to_uminus)
    moreover have "0 \<le> round_to p y"
    proof (cases "y = 0")
      case True
      then show ?thesis by (simp add: round_to_def)
    next
      case False
      with 4 have "0 < y" by simp
      then have "0 < round_to p y" using assms(2) by (rule round_to_pos)
      then show ?thesis by simp
    qed
    ultimately show ?thesis by linarith
  qed
qed

lemma round_to_nonneg: "0 \<le> x \<Longrightarrow> 0 < p \<Longrightarrow> 0 \<le> round_to p x"
  using round_to_mono [of 0 x p] by (simp add: round_to_def)



lemma f64_mono: "x \<le> y \<Longrightarrow> f64 x \<le> f64 y"
  by (simp add: f64_def round_to_mono)

lemma f32_mono: "x \<le> y \<Longrightarrow> f32 x \<le> f32 y"
  by (simp add: f32_def round_to_mono)

lemma f64_nonneg: "0 \<le> x \<Longrightarrow> 0 \<le> f64 x"
  by (simp add: f64_def round_to_nonneg)

lemma np_pi_pos: "0 < np_pi"
  by (simp add: np_pi_def)

lemma half_pi_pos: "0 < f64 (np_pi / 2)"
  using round_to_pos [of "np_pi / 2" 53] np_pi_pos by (simp add: f64_def)

section \<open>The loops of the projector\<close>

lemma ebind_Inr [simp]: "ebind (Inr v) f = f v"
  by (simp add: ebind_def)

lemma ebind_Inl [simp]: "ebind (Inl e) f = Inl e"
  by (simp add: ebind_def)

lemma setitem32_ok:
  assumes "wf_array a" and "y < shape0 a" and "x < shape1 a"
  shows "\<exists>a'. setitem32 a y x v = Inr a' \<and> wf_array a' \<and> shape0 a' = shape0 a
           \<and> shape1 a' = shape1 a
           \<and> (\<forall>i j. cells a' ! i ! j = (if i = y \<and> j = x then f32 v else cells a ! i ! j))"
proof -
  define a' where "a' = a\<lparr>cells := (cells a)[y := (cells a ! y)[x := f32 v]]\<rparr>"
  have len: "length (cells a) = shape0 a" and rows: "\<forall>r \<in> set (cells a). length r = shape1 a"
    using assms(1) by (simp_all add: wf_array_def list_all_iff)
  have rowy: "length (cells a ! y) = shape1 a" using len rows assms(2) by simp
  have 1: "setitem32 a y x v = Inr a'" using assms by (simp add: setitem32_def a'_def)
  have 2: "wf_array a'"
    using len rows rowy
    by (auto simp: wf_array_def a'_def list_all_iff dest!: set_update_subset_insert [THEN subsetD])
  have 3: "cells a' ! i ! j = (if i = y \<and> j = x then f32 v else cells a ! i ! j)" for i j
    using len rowy assms(2,3) by (simp add: a'_def nth_list_update)
  show ?thesis using 1 2 3 by (simp add: a'_def)
qed

text \<open>
  What one pixel costs: with a nonzero \<open>output_w\<close> nothing raises, both maps keep their
  shape, and exactly the entry \<open>(y, x)\<close> of each map is overwritten.
\<close>

lemma pixel_step_ok:
  assumes inv: "maps_inv n k m" and "y < n" and "x < k" and "output_w \<noteq> 0"
  shows "\<exists>m'. pixel_step w h output_w theta y x m = Inr m' \<and> maps_inv n k m'
           \<and> (\<forall>i j. cells (fst m') ! i ! j =
                  (if i = y \<and> j = x then f32 (spec_x_src w (spec_phi (int x) output_w))
                   else cells (fst m) ! i ! j))
           \<and> (\<forall>i j. cells (snd m') ! i ! j =
                  (if i = y \<and> j = x then f32 (spec_y_src h theta) else cells (snd m) ! i ! j))"
proof -
  let ?xs = "spec_x_src w (spec_phi (int x) output_w)"
  let ?ys = "spec_y_src h theta"
  have hp: "fdiv np_pi 2 = Inr (f64 (np_pi / 2))" by (simp add: fdiv_def)
  have hpnz: "f64 (np_pi / 2) \<noteq> 0" using half_pi_pos by simp
  have pnz: "np_pi \<noteq> 0" using np_pi_pos by simp
  have step: "pixel_step w h output_w theta y x m =
      ebind (setitem32 (fst m) y x ?xs) (\<lambda>x_map.
        ebind (setitem32 (snd m) y x ?ys) (\<lambda>y_map. Inr (x_map, y_map)))"
    using assms(4) hpnz pnz
    by (simp add: pixel_step_def true_div_def fdiv_def Let_def spec_x_src_def spec_phi_def
        spec_y_src_def int_to_float_def)
  obtain xm where xm: "setitem32 (fst m) y x ?xs = Inr xm" "wf_array xm"
      "shape0 xm = n" "shape1 xm = k"
      "\<forall>i j. cells xm ! i ! j = (if i = y \<and> j = x then f32 ?xs else cells (fst m) ! i ! j)"
    using setitem32_ok [of "fst m" y x ?xs] assms by (auto simp: maps_inv_def)
  obtain ym where ym: "setitem32 (snd m) y x ?ys = Inr ym" "wf_array ym"
      "shape0 ym = n" "shape1 ym = k"
      "\<forall>i j. cells ym ! i ! j = (if i = y \<and> j = x then f32 ?ys else cells (snd m) ! i ! j)"
    using setitem32_ok [of "snd m" y x ?ys] assms by (auto simp: maps_inv_def)
  have "pixel_step w h output_w theta y x m = Inr (xm, ym)"
    by (simp add: step xm(1) ym(1))
  moreover have "maps_inv n k (xm, ym)" using xm ym by (simp add: maps_inv_def)
  ultimately show ?thesis using xm(5) ym(5) by (intro exI [of _ "(xm, ym)"]) simp
qed

lemma inner_loop_ok:
  assumes "maps_inv n k m" and "y < n" and "\<forall>x \<in> set xl. x < k" and "output_w \<noteq> 0"
  shows "\<exists>m'. inner_loop w h output_w theta y xl m = Inr m' \<and> maps_inv n k m'
           \<and> (\<forall>i j. cells (fst m') ! i ! j =
                  (if i = y \<and> j \<in> set xl then f32 (spec_x_src w (spec_phi (int j) output_w))
                   else cells (fst m) ! i ! j))
           \<and> (\<forall>i j. cells (snd m') ! i ! j =
                  (if i = y \<and> j \<in> set xl then f32 (spec_y_src h theta) else cells (snd m) ! i ! j))"
  using assms
proof (induction xl arbitrary: m)
  case Nil
  then show ?case by simp
next
  case (Cons x xl)
  obtain m1 where m1: "pixel_step w h output_w theta y x m = Inr m1" "maps_inv n k m1"
      "\<forall>i j. cells (fst m1) ! i ! j =
                  (if i = y \<and> j = x then f32 (spec_x_src w (spec_phi (int x) output_w))
                   else cells (fst m) ! i ! j)"
      "\<forall>i j. cells (snd m1) ! i ! j =
                  (if i = y \<and> j = x then f32 (spec_y_src h theta) else cells (snd m) ! i ! j)"
    using pixel_step_ok [of n k m y x output_w w h theta] Cons.prems by auto
  obtain m' where m': "inner_loop w h output_w theta y xl m1 = Inr m'" "maps_inv n k m'"
      "\<forall>i j. cells (fst m') ! i ! j =
                  (if i = y \<and> j \<in> set xl then f32 (spec_x_src w (spec_phi (int j) output_w))
                   else cells (fst m1) ! i ! j)"
      "\<forall>i j. cells (snd m') ! i ! j =
                  (if i = y \<and> j \<in> set xl then f32 (spec_y_src h theta) else cells (snd m1) ! i ! j)"
    using Cons.IH [of m1] m1(2) Cons.prems by auto
  have "inner_loop w h output_w theta y (x # xl) m = Inr m'" by (simp add: m1(1) m'(1))
  moreover have "\<forall>i j. cells (fst m') ! i ! j =
                  (if i = y \<and> j \<in> set (x # xl) then f32 (spec_x_src w (spec_phi (int j) output_w))
                   else cells (fst m) ! i ! j)"
    using m'(3) m1(3) by simp
  moreover have "\<forall>i j. cells (snd m') ! i ! j =
                  (if i = y \<and> j \<in> set (x # xl) then f32 (spec_y_src h theta) else cells (snd m) ! i ! j)"
    using m'(4) m1(4) by simp
  ultimately show ?case using m'(2) by blast
qed

lemma row_step_ok:
  assumes "maps_inv n (nat output_w) m" and "y < n" and "output_h \<noteq> 0"
  shows "\<exists>m'. row_step w h output_w output_h y m = Inr m' \<and> maps_inv n (nat output_w) m'
           \<and> (\<forall>i j. j < nat output_w \<longrightarrow> cells (fst m') ! i ! j =
                  (if i = y then f32 (spec_x_src w (spec_phi (int j) output_w))
                   else cells (fst m) ! i ! j))
           \<and> (\<forall>i j. j < nat output_w \<longrightarrow> cells (snd m') ! i ! j =
                  (if i = y then f32 (spec_y_src h (spec_theta (int y) output_h))
                   else cells (snd m) ! i ! j))"
proof (cases "output_w = 0")
  case True
  then show ?thesis using assms by (simp add: row_step_def true_div_def)
next
  case False
  have rs: "row_step w h output_w output_h y m =
      inner_loop w h output_w (spec_theta (int y) output_h) y [0..<nat output_w] m"
    using assms(3) by (simp add: row_step_def true_div_def spec_theta_def)
  show ?thesis
    using inner_loop_ok [of n "nat output_w" m y "[0..<nat output_w]" output_w w h
        "spec_theta (int y) output_h"] assms False
    by (auto simp: rs)
qed

lemma outer_loop_ok:
  assumes "maps_inv n (nat output_w) m" and "\<forall>y \<in> set yl. y < n" and "output_h \<noteq> 0"
  shows "\<exists>m'. outer_loop w h output_w output_h yl m = Inr m' \<and> maps_inv n (nat output_w) m'
           \<and> (\<forall>i j. j < nat output_w \<longrightarrow> cells (fst m') ! i ! j =
                  (if i \<in> set yl then f32 (spec_x_src w (spec_phi (int j) output_w))
                   else cells (fst m) ! i ! j))
           \<and> (\<forall>i j. j < nat output_w \<longrightarrow> cells (snd m') ! i ! j =
                  (if i \<in> set yl then f32 (spec_y_src h (spec_theta (int i) output_h))
                   else cells (snd m) ! i ! j))"
  using assms
proof (induction yl arbitrary: m)
  case Nil
  then show ?case by simp
next
  case (Cons y yl)
  let ?k = "nat output_w"
  obtain m1 where m1: "row_step w h output_w output_h y m = Inr m1" "maps_inv n ?k m1"
      "\<forall>i j. j < ?k \<longrightarrow> cells (fst m1) ! i ! j =
                  (if i = y then f32 (spec_x_src w (spec_phi (int j) output_w))
                   else cells (fst m) ! i ! j)"
      "\<forall>i j. j < ?k \<longrightarrow> cells (snd m1) ! i ! j =
                  (if i = y then f32 (spec_y_src h (spec_theta (int y) output_h))
                   else cells (snd m) ! i ! j)"
    using row_step_ok [of n output_w m y output_h w h] Cons.prems by auto
  obtain m' where m': "outer_loop w h output_w output_h yl m1 = Inr m'" "maps_inv n ?k m'"
      "\<forall>i j. j < ?k \<longrightarrow> cells (fst m') ! i ! j =
                  (if i \<in> set yl then f32 (spec_x_src w (spec_phi (int j) output_w))
                   else cells (fst m1) ! i ! j)"
      "\<forall>i j. j < ?k \<longrightarrow> cells (snd m') ! i ! j =
                  (if i \<in> set yl then f32 (spec_y_src h (spec_theta (int i) output_h))
                   else cells (snd m1) ! i ! j)"
    using Cons.IH [of m1] m1(2) Cons.prems by auto
  have "outer_loop w h output_w output_h (y # yl) m = Inr m'" by (simp add: m1(1) m'(1))
  moreover have "\<forall>i j. j < ?k \<longrightarrow> cells (fst m') ! i ! j =
                  (if i \<in> set (y # yl) then f32 (spec_x_src w (spec_phi (int j) output_w))
                   else cells (fst m) ! i ! j)"
    using m'(3) m1(3) by simp
  moreover have "\<forall>i j. j < ?k \<longrightarrow> cells (snd m') ! i ! j =
                  (if i \<in> set (y # yl) then f32 (spec_y_src h (spec_theta (int i) output_h))
                   else cells (snd m) ! i ! j)"
    using m'(4) m1(4) by simp
  ultimately show ?case using m'(2) by blast
qed

lemma np_zeros_inv: "maps_inv n k (np_zeros n k, np_zeros n k)"
  by (simp add: maps_inv_def wf_array_def np_zeros_def list_all_iff)

text \<open>
  The maps that the two loops build: for a configuration with positive sizes nothing
  raises, both maps have \<open>output_h\<close> rows of \<open>output_w\<close> entries, and every entry is the
  formula's value, narrowed to binary32.
\<close>

lemma build_maps_entries:
  assumes "0 < output_w" and "0 < output_h"
  shows "\<exists>m. build_maps w h output_w output_h = Inr m
           \<and> maps_inv (nat output_h) (nat output_w) m
           \<and> (\<forall>i j. i < nat output_h \<longrightarrow> j < nat output_w \<longrightarrow>
                 cells (fst m) ! i ! j = f32 (spec_x_src w (spec_phi (int j) output_w))
               \<and> cells (snd m) ! i ! j = f32 (spec_y_src h (spec_theta (int i) output_h)))"
proof -
  let ?z = "(np_zeros (nat output_h) (nat output_w), np_zeros (nat output_h) (nat output_w))"
  have nz: "output_h \<noteq> 0" using assms by simp
  obtain m where m: "outer_loop w h output_w output_h [0..<nat output_h] ?z = Inr m"
      "maps_inv (nat output_h) (nat output_w) m"
      "\<forall>i j. j < nat output_w \<longrightarrow> cells (fst m) ! i ! j =
                  (if i \<in> set [0..<nat output_h] then f32 (spec_x_src w (spec_phi (int j) output_w))
                   else cells (fst ?z) ! i ! j)"
      "\<forall>i j. j < nat output_w \<longrightarrow> cells (snd m) ! i ! j =
                  (if i \<in> set [0..<nat output_h] then f32 (spec_y_src h (spec_theta (int i) output_h))
                   else cells (snd ?z) ! i ! j)"
    using outer_loop_ok [where n = "nat output_h" and output_w = output_w and m = ?z
        and yl = "[0..<nat output_h]" and output_h = output_h and w = w and h = h]
      np_zeros_inv [of "nat output_h" "nat output_w"] nz
    by auto
  have "build_maps w h output_w output_h = Inr m"
    using assms m(1) by (simp add: build_maps_def)
  then show ?thesis using m(2,3,4) by auto
qed

section \<open>The coordinate maps\<close>

lemma spec_phi_mono:
  assumes "0 < output_w" and "x1 \<le> x2"
  shows "spec_phi x1 output_w \<le> spec_phi x2 output_w"
proof -
  have "(of_int x1 :: rat) / of_int output_w \<le> of_int x2 / of_int output_w"
    using assms by (simp add: divide_right_mono)
  then have "f64 (of_int x1 / of_int output_w) - 1/2 \<le> f64 (of_int x2 / of_int output_w) - 1/2"
    using f64_mono by simp
  then have "fsub (f64 (of_int x1 / of_int output_w)) (1/2) * 2
      \<le> fsub (f64 (of_int x2 / of_int output_w)) (1/2) * 2"
    unfolding fsub_def using f64_mono by simp
  then have "fmul (fsub (f64 (of_int x1 / of_int output_w)) (1/2)) 2 * np_pi
      \<le> fmul (fsub (f64 (of_int x2 / of_int output_w)) (1/2)) 2 * np_pi"
    unfolding fmul_def using f64_mono np_pi_pos by (simp add: mult_right_mono)
  then show ?thesis unfolding spec_phi_def fmul_def [of _ np_pi] by (rule f64_mono)
qed

lemma spec_theta_mono:
  assumes "0 < output_h" and "y1 \<le> y2"
  shows "spec_theta y1 output_h \<le> spec_theta y2 output_h"
proof -
  have "(of_int y1 :: rat) / of_int output_h \<le> of_int y2 / of_int output_h"
    using assms by (simp add: divide_right_mono)
  then have "f64 (of_int y1 / of_int output_h) - 1/2 \<le> f64 (of_int y2 / of_int output_h) - 1/2"
    using f64_mono by simp
  then have "fsub (f64 (of_int y1 / of_int output_h)) (1/2) * np_pi
      \<le> fsub (f64 (of_int y2 / of_int output_h)) (1/2) * np_pi"
    unfolding fsub_def using f64_mono np_pi_pos by (simp add: mult_right_mono)
  then show ?thesis unfolding spec_theta_def fmul_def by (rule f64_mono)
qed

lemma half_size_nonneg: "0 \<le> fmul (1/2) (f64 (of_nat n))"
  unfolding fmul_def by (intro f64_nonneg mult_nonneg_nonneg) simp_all

lemma spec_x_src_mono:
  assumes "phi1 \<le> phi2"
  shows "spec_x_src w phi1 \<le> spec_x_src w phi2"
proof -
  have "phi1 / np_pi \<le> phi2 / np_pi"
    using assms np_pi_pos by (simp add: divide_right_mono)
  then have "f64 (phi1 / np_pi) + 1 \<le> f64 (phi2 / np_pi) + 1"
    using f64_mono by simp
  then have "fadd (f64 (phi1 / np_pi)) 1 \<le> fadd (f64 (phi2 / np_pi)) 1"
    unfolding fadd_def by (rule f64_mono)
  then have "fmul (1/2) (f64 (of_nat w)) * fadd (f64 (phi1 / np_pi)) 1
      \<le> fmul (1/2) (f64 (of_nat w)) * fadd (f64 (phi2 / np_pi)) 1"
    using half_size_nonneg by (rule mult_left_mono)
  then show ?thesis
    unfolding spec_x_src_def fmul_def [of "fmul (1/2) (f64 (of_nat w))"] by (rule f64_mono)
qed

lemma spec_y_src_mono:
  assumes "theta1 \<le> theta2"
  shows "spec_y_src h theta1 \<le> spec_y_src h theta2"
proof -
  have "theta1 / f64 (np_pi / 2) \<le> theta2 / f64 (np_pi / 2)"
    using assms half_pi_pos by (simp add: divide_right_mono)
  then have "f64 (theta1 / f64 (np_pi / 2)) + 1 \<le> f64 (theta2 / f64 (np_pi / 2)) + 1"
    using f64_mono by simp
  then have "fadd (f64 (theta1 / f64 (np_pi / 2))) 1 \<le> fadd (f64 (theta2 / f64 (np_pi / 2))) 1"
    unfolding fadd_def by (rule f64_mono)
  then have "fmul (1/2) (f64 (of_nat h)) * fadd (f64 (theta1 / f64 (np_pi / 2))) 1
      \<le> fmul (1/2) (f64 (of_nat h)) * fadd (f64 (theta2 / f64 (np_pi / 2))) 1"
    using half_size_nonneg by (rule mult_left_mono)
  then show ?thesis
    unfolding spec_y_src_def fmul_def [of "fmul (1/2) (f64 (of_nat h))"] by (rule f64_mono)
qed

lemma resample_shape:
  assumes "maps_inv n k m"
  shows "shape0 (resample sample src (fst m) (snd m)) = n"
    and "shape1 (resample sample src (fst m) (snd m)) = k"
    and "wf_array (resample sample src (fst m) (snd m))"
proof -
  have x: "length (cells (fst m)) = n" "\<forall>r \<in> set (cells (fst m)). length r = k"
    and y: "length (cells (snd m)) = n" "\<forall>r \<in> set (cells (snd m)). length r = k"
    using assms by (simp_all add: maps_inv_def wf_array_def list_all_iff)
  show "shape0 (resample sample src (fst m) (snd m)) = n"
    using assms by (simp add: resample_def maps_inv_def)
  show "shape1 (resample sample src (fst m) (snd m)) = k"
    using assms by (simp add: resample_def maps_inv_def)
  have zl: "length (zip xr yr) = k" if "(xr, yr) \<in> set (zip (cells (fst m)) (cells (snd m)))" for xr yr
    using set_zip_leftD [OF that] set_zip_rightD [OF that] x(2) y(2) by simp
  have len: "length (cells (resample sample src (fst m) (snd m))) = n"
    by (simp add: resample_def x(1) y(1))
  have rows: "length r = k" if "r \<in> set (cells (resample sample src (fst m) (snd m)))" for r
  proof -
    from that obtain xr yr where p: "(xr, yr) \<in> set (zip (cells (fst m)) (cells (snd m)))"
      and r: "r = map (\<lambda>(xs, ys). sample src xs ys) (zip xr yr)"
      by (auto simp: resample_def)
    show ?thesis using zl [OF p] by (simp only: r length_map)
  qed
  have s0: "shape0 (resample sample src (fst m) (snd m)) = n"
    and s1: "shape1 (resample sample src (fst m) (snd m)) = k"
    using assms by (simp_all add: resample_def maps_inv_def)
  show "wf_array (resample sample src (fst m) (snd m))"
    unfolding wf_array_def list_all_iff s0 s1 using len rows by blast
qed

lemma exact_src_linear:
  "exact_x_src w x output_w = of_nat w * of_int x / of_int output_w"
  "exact_y_src h y output_h = of_nat h * of_int y / of_int output_h"
  by (simp_all add: exact_x_src_def exact_y_src_def field_simps)

text \<open>
  C1: for every panorama size and every output pixel \<open>(x, y)\<close> of a configuration with
  positive sizes, the maps are built without an error and their entries at \<open>(y, x)\<close> are
  the values of the specification's formula for \<open>x_src\<close> and \<open>y_src\<close>, stored in the
  maps' element type. Over the real numbers that formula is the uniform linear rescale
  \<open>pano_width * x / output_width\<close> and \<open>pano_height * y / output_height\<close>; no
  spherical correction is applied.
\<close>

theorem coordinate_map_formula:
  assumes "x < nat output_w" and "y < nat output_h"
  shows "\<exists>m. build_maps w h output_w output_h = Inr m
           \<and> cells (fst m) ! y ! x = f32 (spec_x_src w (spec_phi (int x) output_w))
           \<and> cells (snd m) ! y ! x = f32 (spec_y_src h (spec_theta (int y) output_h))
           \<and> exact_x_src w (int x) output_w = of_nat w * of_nat x / of_int output_w
           \<and> exact_y_src h (int y) output_h = of_nat h * of_nat y / of_int output_h"
proof -
  have "0 < output_w" and "0 < output_h" using assms by simp_all
  then show ?thesis
    using build_maps_entries [of output_w output_h w h] assms
      exact_src_linear(1) [of w "int x" output_w] exact_src_linear(2) [of h "int y" output_h]
    by auto
qed

theorem coordinate_map_formula_witness:
  "(1::nat) < nat 4 \<and> (1::nat) < nat 2
   \<and> (\<exists>m. build_maps 8 6 4 2 = Inr m
           \<and> cells (fst m) ! 1 ! 1 = f32 (spec_x_src 8 (spec_phi (int 1) 4))
           \<and> cells (snd m) ! 1 ! 1 = f32 (spec_y_src 6 (spec_theta (int 1) 2))
           \<and> exact_x_src 8 (int 1) 4 = 2
           \<and> exact_y_src 6 (int 1) 2 = 3)"
  using coordinate_map_formula [of 1 4 1 2 8 6] by simp

lemma project_ok:
  assumes "0 < output_w" and "0 < output_h"
    and "nat output_w < SHRT_MAX" and "nat output_h < SHRT_MAX"
    and "shape1 pano < SHRT_MAX" and "shape0 pano < SHRT_MAX"
  shows "\<exists>out. pano_to_equirectangular sample pano output_w output_h = Inr out
           \<and> shape0 out = nat output_h \<and> shape1 out = nat output_w \<and> wf_array out"
proof -
  obtain m where m: "build_maps (shape1 pano) (shape0 pano) output_w output_h = Inr m"
      "maps_inv (nat output_h) (nat output_w) m"
    using build_maps_entries [OF assms(1,2), of "shape1 pano" "shape0 pano"] by blast
  let ?out = "resample sample pano (fst m) (snd m)"
  have sh: "shape0 (fst m) = nat output_h" "shape1 (fst m) = nat output_w"
    using m(2) by (simp_all add: maps_inv_def)
  have "remap sample pano (fst m) (snd m) = Inr ?out"
    using assms sh by (simp add: remap_def)
  then have "pano_to_equirectangular sample pano output_w output_h = Inr ?out"
    by (simp add: pano_to_equirectangular_def m(1))
  moreover have "shape0 ?out = nat output_h" "shape1 ?out = nat output_w" "wf_array ?out"
    using resample_shape [OF m(2), where sample = sample and src = pano] by simp_all
  ultimately show ?thesis by blast
qed

lemma project_too_large:
  assumes "0 < output_w" and "0 < output_h"
    and "\<not> (nat output_w < SHRT_MAX \<and> nat output_h < SHRT_MAX
            \<and> shape1 pano < SHRT_MAX \<and> shape0 pano < SHRT_MAX)"
  shows "pano_to_equirectangular sample pano output_w output_h
           = Inl (Cv2Error (''(-215:Assertion failed) dst.cols < SHRT_MAX && dst.rows < SHRT_MAX ''
                            @ ''&& src.cols < SHRT_MAX && src.rows < SHRT_MAX in function remap''))"
proof -
  obtain m where m: "build_maps (shape1 pano) (shape0 pano) output_w output_h = Inr m"
      "maps_inv (nat output_h) (nat output_w) m"
    using build_maps_entries [OF assms(1,2), of "shape1 pano" "shape0 pano"] by blast
  have sh: "shape0 (fst m) = nat output_h" "shape1 (fst m) = nat output_w"
    using m(2) by (simp_all add: maps_inv_def)
  have "remap sample pano (fst m) (snd m)
           = Inl (Cv2Error (''(-215:Assertion failed) dst.cols < SHRT_MAX && dst.rows < SHRT_MAX ''
                            @ ''&& src.cols < SHRT_MAX && src.rows < SHRT_MAX in function remap''))"
    using assms sh unfolding remap_def by auto
  then show ?thesis by (simp add: pano_to_equirectangular_def m(1))
qed

text \<open>
  C8, as stated, fails: \<^verbatim>\<open>cv2.remap\<close> raises for a canvas or a panorama with a side of
  32767 pixels or more, although such a configuration has positive sizes and such a
  panorama is a valid image. Two cases: a canvas of 32767 by 1 pixels, and a panorama of
  32767 by 1 pixels projected onto the default canvas.
\<close>

theorem project_fails_on_large_sides:
  "(0::int) < 32767 \<and> (0::int) < 1
   \<and> pano_to_equirectangular (bilinear_wrap example_codec) example_image 32767 1
       = Inl (Cv2Error (''(-215:Assertion failed) dst.cols < SHRT_MAX && dst.rows < SHRT_MAX ''
                        @ ''&& src.cols < SHRT_MAX && src.rows < SHRT_MAX in function remap''))
   \<and> 0 < shape0 wide_panorama \<and> 0 < shape1 wide_panorama \<and> wf_array wide_panorama
   \<and> pano_to_equirectangular (bilinear_wrap example_codec) wide_panorama default_output_w default_output_h
       = Inl (Cv2Error (''(-215:Assertion failed) dst.cols < SHRT_MAX && dst.rows < SHRT_MAX ''
                        @ ''&& src.cols < SHRT_MAX && src.rows < SHRT_MAX in function remap''))"
proof -
  have 1: "pano_to_equirectangular (bilinear_wrap example_codec) example_image 32767 1
       = Inl (Cv2Error (''(-215:Assertion failed) dst.cols < SHRT_MAX && dst.rows < SHRT_MAX ''
                        @ ''&& src.cols < SHRT_MAX && src.rows < SHRT_MAX in function remap''))"
    by (rule project_too_large) (simp_all add: SHRT_MAX_def)
  have 2: "pano_to_equirectangular (bilinear_wrap example_codec) wide_panorama default_output_w default_output_h
       = Inl (Cv2Error (''(-215:Assertion failed) dst.cols < SHRT_MAX && dst.rows < SHRT_MAX ''
                        @ ''&& src.cols < SHRT_MAX && src.rows < SHRT_MAX in function remap''))"
    by (rule project_too_large)
       (simp_all add: SHRT_MAX_def wide_panorama_def default_output_w_def default_output_h_def)
  have 3: "0 < shape0 wide_panorama" "0 < shape1 wide_panorama" "wf_array wide_panorama"
    by (simp_all add: wide_panorama_def wf_array_def)
  show ?thesis using 1 2 3 by simp
qed

text \<open>
  C8, amended: for every panorama whose sides are below 32767 pixels and every
  configuration whose sizes are positive and below 32767, the projection returns an
  image of exactly \<open>output_h\<close> rows of \<open>output_w\<close> pixels and does not fail; when the
  sizes are positive and one of these four sides is 32767 or more, it raises the error
  of \<^verbatim>\<open>cv2.remap\<close>.
\<close>

theorem project_size:
  assumes "0 < output_w" and "0 < output_h"
  shows "(output_w < 32767 \<and> output_h < 32767 \<and> shape1 pano < 32767 \<and> shape0 pano < 32767 \<longrightarrow>
           (\<exists>out. pano_to_equirectangular sample pano output_w output_h = Inr out
              \<and> shape0 out = nat output_h \<and> shape1 out = nat output_w
              \<and> length (cells out) = nat output_h
              \<and> (\<forall>row \<in> set (cells out). length row = nat output_w)))
       \<and> (\<not> (output_w < 32767 \<and> output_h < 32767 \<and> shape1 pano < 32767 \<and> shape0 pano < 32767) \<longrightarrow>
           (\<exists>msg. pano_to_equirectangular sample pano output_w output_h = Inl (Cv2Error msg)))"
proof (intro conjI impI)
  assume a: "output_w < 32767 \<and> output_h < 32767 \<and> shape1 pano < 32767 \<and> shape0 pano < 32767"
  then have "nat output_w < SHRT_MAX" "nat output_h < SHRT_MAX"
    "shape1 pano < SHRT_MAX" "shape0 pano < SHRT_MAX"
    unfolding SHRT_MAX_def by linarith+
  then show "\<exists>out. pano_to_equirectangular sample pano output_w output_h = Inr out
              \<and> shape0 out = nat output_h \<and> shape1 out = nat output_w
              \<and> length (cells out) = nat output_h
              \<and> (\<forall>row \<in> set (cells out). length row = nat output_w)"
    using project_ok [OF assms, of pano sample] by (auto simp: wf_array_def list_all_iff)
next
  assume "\<not> (output_w < 32767 \<and> output_h < 32767 \<and> shape1 pano < 32767 \<and> shape0 pano < 32767)"
  then have "\<not> (nat output_w < SHRT_MAX \<and> nat output_h < SHRT_MAX
            \<and> shape1 pano < SHRT_MAX \<and> shape0 pano < SHRT_MAX)"
    using assms by (auto simp: SHRT_MAX_def)
  then show "\<exists>msg. pano_to_equirectangular sample pano output_w output_h = Inl (Cv2Error msg)"
    using project_too_large [OF assms, of pano sample] by blast
qed

theorem project_size_witness:
  "(0::int) < 2048 \<and> (0::int) < 1024
   \<and> (2048::int) < 32767 \<and> (1024::int) < 32767
   \<and> shape1 \<lparr>shape0 = 2, shape1 = 3, cells = [[1, 2, 3], [4, 5, 6::nat]]\<rparr> < 32767
   \<and> shape0 \<lparr>shape0 = 2, shape1 = 3, cells = [[1, 2, 3], [4, 5, 6::nat]]\<rparr> < 32767
   \<and> (\<exists>out. pano_to_equirectangular (\<lambda>src xs ys. (0::nat))
              \<lparr>shape0 = 2, shape1 = 3, cells = [[1, 2, 3], [4, 5, 6]]\<rparr> 2048 1024 = Inr out
           \<and> shape0 out = nat 1024 \<and> shape1 out = nat 2048
           \<and> length (cells out) = nat 1024
           \<and> (\<forall>row \<in> set (cells out). length row = nat 2048))"
  using project_size [of 2048 1024 "\<lparr>shape0 = 2, shape1 = 3, cells = [[1, 2, 3], [4, 5, 6]]\<rparr>"
      "\<lambda>src xs ys. (0::nat)"]
  by simp

text \<open>
  C9: for a fixed row the source column stored in \<open>x_map\<close> does not decrease as the
  output column grows, and for a fixed column the source row stored in \<open>y_map\<close> does not
  decrease as the output row grows. Every rounding step of the computation preserves
  the order.
\<close>

theorem coordinate_map_monotone:
  assumes "build_maps w h output_w output_h = Inr m"
  shows "(\<forall>y x1 x2. y < nat output_h \<and> x1 \<le> x2 \<and> x2 < nat output_w \<longrightarrow>
            cells (fst m) ! y ! x1 \<le> cells (fst m) ! y ! x2)
       \<and> (\<forall>x y1 y2. x < nat output_w \<and> y1 \<le> y2 \<and> y2 < nat output_h \<longrightarrow>
            cells (snd m) ! y1 ! x \<le> cells (snd m) ! y2 ! x)"
proof (intro conjI allI impI)
  fix y x1 x2
  assume a: "y < nat output_h \<and> x1 \<le> x2 \<and> x2 < nat output_w"
  then have pos: "0 < output_w" "0 < output_h" by linarith+
  have e: "\<forall>i j. i < nat output_h \<longrightarrow> j < nat output_w \<longrightarrow>
      cells (fst m) ! i ! j = f32 (spec_x_src w (spec_phi (int j) output_w))"
    using build_maps_entries [OF pos, of w h] assms by auto
  have "spec_phi (int x1) output_w \<le> spec_phi (int x2) output_w"
    using pos(1) a by (intro spec_phi_mono) simp_all
  then have "f32 (spec_x_src w (spec_phi (int x1) output_w))
      \<le> f32 (spec_x_src w (spec_phi (int x2) output_w))"
    by (intro f32_mono spec_x_src_mono)
  then show "cells (fst m) ! y ! x1 \<le> cells (fst m) ! y ! x2" using e a by simp
next
  fix x y1 y2
  assume a: "x < nat output_w \<and> y1 \<le> y2 \<and> y2 < nat output_h"
  then have pos: "0 < output_w" "0 < output_h" by linarith+
  have e: "\<forall>i j. i < nat output_h \<longrightarrow> j < nat output_w \<longrightarrow>
      cells (snd m) ! i ! j = f32 (spec_y_src h (spec_theta (int i) output_h))"
    using build_maps_entries [OF pos, of w h] assms by auto
  have "spec_theta (int y1) output_h \<le> spec_theta (int y2) output_h"
    using pos(2) a by (intro spec_theta_mono) simp_all
  then have "f32 (spec_y_src h (spec_theta (int y1) output_h))
      \<le> f32 (spec_y_src h (spec_theta (int y2) output_h))"
    by (intro f32_mono spec_y_src_mono)
  then show "cells (snd m) ! y1 ! x \<le> cells (snd m) ! y2 ! x" using e a by simp
qed

theorem coordinate_map_monotone_witness:
  "\<exists>m. build_maps 8 6 4 2 = Inr m
     \<and> cells (fst m) ! 0 ! 1 \<le> cells (fst m) ! 0 ! 2
     \<and> cells (snd m) ! 0 ! 3 \<le> cells (snd m) ! 1 ! 3"
proof -
  obtain m where m: "build_maps 8 6 4 2 = Inr m"
    using build_maps_entries [of 4 2 8 6] by auto
  have "cells (fst m) ! 0 ! 1 \<le> cells (fst m) ! 0 ! 2"
    and "cells (snd m) ! 0 ! 3 \<le> cells (snd m) ! 1 ! 3"
    using coordinate_map_monotone [OF m] by simp_all
  then show ?thesis using m by blast
qed

text \<open>
  C10: the maps are separable. Every row of \<open>x_map\<close> is the same, so an entry of
  \<open>x_map\<close> depends on its column only, and every column of \<open>y_map\<close> is the same, so an
  entry of \<open>y_map\<close> depends on its row only.
\<close>

theorem coordinate_map_separable:
  assumes "build_maps w h output_w output_h = Inr m"
  shows "(\<forall>x y1 y2. x < nat output_w \<and> y1 < nat output_h \<and> y2 < nat output_h \<longrightarrow>
            cells (fst m) ! y1 ! x = cells (fst m) ! y2 ! x)
       \<and> (\<forall>y x1 x2. y < nat output_h \<and> x1 < nat output_w \<and> x2 < nat output_w \<longrightarrow>
            cells (snd m) ! y ! x1 = cells (snd m) ! y ! x2)"
proof (intro conjI allI impI)
  fix x y1 y2
  assume a: "x < nat output_w \<and> y1 < nat output_h \<and> y2 < nat output_h"
  then have pos: "0 < output_w" "0 < output_h" by linarith+
  show "cells (fst m) ! y1 ! x = cells (fst m) ! y2 ! x"
    using build_maps_entries [OF pos, of w h] assms a by auto
next
  fix y x1 x2
  assume a: "y < nat output_h \<and> x1 < nat output_w \<and> x2 < nat output_w"
  then have pos: "0 < output_w" "0 < output_h" by linarith+
  show "cells (snd m) ! y ! x1 = cells (snd m) ! y ! x2"
    using build_maps_entries [OF pos, of w h] assms a by auto
qed

theorem coordinate_map_separable_witness:
  "\<exists>m. build_maps 8 6 4 2 = Inr m
     \<and> cells (fst m) ! 0 ! 3 = cells (fst m) ! 1 ! 3
     \<and> cells (snd m) ! 1 ! 0 = cells (snd m) ! 1 ! 2"
proof -
  obtain m where m: "build_maps 8 6 4 2 = Inr m"
    using build_maps_entries [of 4 2 8 6] by auto
  have "cells (fst m) ! 0 ! 3 = cells (fst m) ! 1 ! 3"
    and "cells (snd m) ! 1 ! 0 = cells (snd m) ! 1 ! 2"
    using coordinate_map_separable [OF m] by simp_all
  then show ?thesis using m by blast
qed

section \<open>A row whose source coordinate leaves the panorama\<close>

text \<open>
  Over the real numbers the formula is the linear rescale \<open>size * index / output_size\<close>,
  which stays inside the panorama for every size. A coordinate can leave the range
  \<open>[0, size)\<close> only through rounding.
\<close>

lemma exact_y_src_in_range:
  assumes "0 < h" and "0 \<le> y" and "y < output_h"
  shows "0 \<le> exact_y_src h y output_h" and "exact_y_src h y output_h < of_nat h"
proof -
  have oh: "(0::real) < of_int output_h" using assms(2,3) by simp
  have e: "exact_y_src h y output_h = of_nat h * of_int y / of_int output_h"
    by (rule exact_src_linear)
  show "0 \<le> exact_y_src h y output_h"
    unfolding e using assms(2) oh by (intro divide_nonneg_pos mult_nonneg_nonneg) simp_all
  have "(of_nat h :: real) * of_int y < of_nat h * of_int output_h"
    using assms(1,3) by (intro mult_strict_left_mono) simp_all
  then show "exact_y_src h y output_h < of_nat h"
    unfolding e using oh by (simp add: pos_divide_less_eq)
qed













section \<open>The stitch orchestration\<close>

lemma error_msg_classify: "error_msg status = failure_text (classify status)"
  by (simp add: error_msg_def error_codes_def classify_def)

lemma app_stitch_runs:
  "snd (app_stitch_images env images) = (if has_PANORAMA env then [PANORAMA] else [])"
  by (simp add: app_stitch_images_def Let_def split: prod.split)

lemma batch_stitch_first_ok:
  assumes "first_mode env = Inr mode" and "run_stitcher env mode 0 images = (Stitcher_OK, pano)"
  shows "batch_stitch_images env images = (Inr pano, [mode])"
  using assms by (simp add: batch_stitch_images_def)

lemma batch_stitch_retry:
  assumes "first_mode env = Inr mode" and "fst (run_stitcher env mode 0 images) \<noteq> Stitcher_OK"
    and "has_PANORAMA env" and "run_stitcher env PANORAMA 1 images = (status, pano)"
  shows "batch_stitch_images env images =
           (if status = Stitcher_OK then Inr pano else Inl (RuntimeError (error_msg status)),
            [mode, PANORAMA])"
proof -
  obtain s0 p0 where r0: "run_stitcher env mode 0 images = (s0, p0)"
    by (cases "run_stitcher env mode 0 images")
  then have "s0 \<noteq> Stitcher_OK" using assms(2) by simp
  then show ?thesis using assms(1,3,4) r0 by (simp add: batch_stitch_images_def)
qed

lemma batch_stitch_no_retry:
  assumes "first_mode env = Inr mode" and "run_stitcher env mode 0 images = (status, pano)"
    and "status \<noteq> Stitcher_OK" and "\<not> has_PANORAMA env"
  shows "batch_stitch_images env images = (Inl (RuntimeError (error_msg status)), [mode])"
  using assms by (simp add: batch_stitch_images_def)

lemma batch_stitch_runs_le: "length (snd (batch_stitch_images env images)) \<le> 2"
  by (simp add: batch_stitch_images_def Let_def split: sum.split prod.split)

text \<open>
  C2, as stated, fails for the HTTP service: on an engine build that has SCANS mode and
  would succeed in it, \<^verbatim>\<open>stitch_images\<close> of \<^verbatim>\<open>app.py\<close> runs the engine once, in PANORAMA
  mode, and raises.
\<close>

theorem app_stitch_skips_scans:
  "has_SCANS scans_only_env
   \<and> fst (run_stitcher scans_only_env SCANS 0 [example_image, example_image]) = Stitcher_OK
   \<and> app_stitch_images scans_only_env [example_image, example_image]
       = (Inl (RuntimeError ''Stitching failed with status 1''), [PANORAMA])"
  by (simp add: scans_only_env_def app_stitch_images_def Stitcher_OK_def str_int_def str_nat.simps digit_char_def)

text \<open>
  C2, amended. The batch tool runs the engine first in SCANS mode when the build has it
  and in PANORAMA mode otherwise; when that run succeeds its panorama is returned after
  one run; when it fails and the build has PANORAMA mode, the engine is run exactly once
  more, in PANORAMA mode, and that run decides the result; there are never more than two
  runs. The HTTP service runs the engine once, in PANORAMA mode, and never in SCANS mode.
\<close>

theorem stitch_attempts:
  "(has_SCANS env \<longrightarrow> first_mode env = Inr SCANS)
   \<and> (\<not> has_SCANS env \<and> has_PANORAMA env \<longrightarrow> first_mode env = Inr PANORAMA)
   \<and> (\<forall>mode pano. first_mode env = Inr mode \<and> run_stitcher env mode 0 images = (Stitcher_OK, pano)
         \<longrightarrow> batch_stitch_images env images = (Inr pano, [mode]))
   \<and> (\<forall>mode status pano. first_mode env = Inr mode
         \<and> fst (run_stitcher env mode 0 images) \<noteq> Stitcher_OK \<and> has_PANORAMA env
         \<and> run_stitcher env PANORAMA 1 images = (status, pano)
         \<longrightarrow> snd (batch_stitch_images env images) = [mode, PANORAMA]
           \<and> (status = Stitcher_OK \<longrightarrow> fst (batch_stitch_images env images) = Inr pano)
           \<and> (status \<noteq> Stitcher_OK \<longrightarrow> (\<exists>e. fst (batch_stitch_images env images) = Inl e)))
   \<and> length (snd (batch_stitch_images env images)) \<le> 2
   \<and> snd (app_stitch_images env images) = (if has_PANORAMA env then [PANORAMA] else [])"
proof (intro conjI allI impI)
  show "first_mode env = Inr SCANS" if "has_SCANS env"
    using that by (simp add: first_mode_def)
  show "first_mode env = Inr PANORAMA" if "\<not> has_SCANS env \<and> has_PANORAMA env"
    using that by (simp add: first_mode_def)
  show "batch_stitch_images env images = (Inr pano, [mode])"
    if "first_mode env = Inr mode \<and> run_stitcher env mode 0 images = (Stitcher_OK, pano)"
    for mode pano
    using that batch_stitch_first_ok [of env mode images pano] by simp
  show "length (snd (batch_stitch_images env images)) \<le> 2"
    by (rule batch_stitch_runs_le)
  show "snd (app_stitch_images env images) = (if has_PANORAMA env then [PANORAMA] else [])"
    by (rule app_stitch_runs)
next
  fix mode status pano
  assume a: "first_mode env = Inr mode
         \<and> fst (run_stitcher env mode 0 images) \<noteq> Stitcher_OK \<and> has_PANORAMA env
         \<and> run_stitcher env PANORAMA 1 images = (status, pano)"
  then have r: "batch_stitch_images env images =
           (if status = Stitcher_OK then Inr pano else Inl (RuntimeError (error_msg status)),
            [mode, PANORAMA])"
    using batch_stitch_retry [of env mode images status pano] by simp
  show "snd (batch_stitch_images env images) = [mode, PANORAMA]" by (simp add: r)
  show "fst (batch_stitch_images env images) = Inr pano" if "status = Stitcher_OK"
    using that by (simp add: r)
  show "\<exists>e. fst (batch_stitch_images env images) = Inl e" if "status \<noteq> Stitcher_OK"
    using that by (simp add: r)
qed

theorem stitch_attempts_witness:
  "has_SCANS scans_only_env \<and> first_mode scans_only_env = Inr SCANS
   \<and> batch_stitch_images scans_only_env [example_image, example_image] = (Inr example_image, [SCANS])
   \<and> \<not> has_SCANS no_scans_env \<and> has_PANORAMA no_scans_env
   \<and> first_mode no_scans_env = Inr PANORAMA
   \<and> fst (run_stitcher no_scans_env PANORAMA 0 [example_image, example_image]) \<noteq> Stitcher_OK
   \<and> run_stitcher no_scans_env PANORAMA 1 [example_image, example_image] = (Stitcher_OK, example_image)
   \<and> snd (batch_stitch_images no_scans_env [example_image, example_image]) = [PANORAMA, PANORAMA]
   \<and> fst (batch_stitch_images no_scans_env [example_image, example_image]) = Inr example_image
   \<and> snd (app_stitch_images no_scans_env [example_image, example_image]) = [PANORAMA]"
proof -
  have 1: "has_SCANS scans_only_env" "\<not> has_SCANS no_scans_env" "has_PANORAMA no_scans_env"
    "run_stitcher scans_only_env SCANS 0 [example_image, example_image] = (Stitcher_OK, example_image)"
    "fst (run_stitcher no_scans_env PANORAMA 0 [example_image, example_image]) \<noteq> Stitcher_OK"
    "run_stitcher no_scans_env PANORAMA 1 [example_image, example_image] = (Stitcher_OK, example_image)"
    by (simp_all add: scans_only_env_def no_scans_env_def Stitcher_OK_def)
  note a = stitch_attempts [of scans_only_env "[example_image, example_image]"]
  note b = stitch_attempts [of no_scans_env "[example_image, example_image]"]
  show ?thesis using 1 a b by auto
qed

section \<open>Failure messages\<close>

lemma digit_char_inj:
  assumes "a < 10" and "b < 10" and "digit_char a = digit_char b"
  shows "a = b"
proof -
  have d: "distinct ''0123456789''" by simp
  have "a < length ''0123456789''" "b < length ''0123456789''" using assms by simp_all
  then show ?thesis using assms(3) d unfolding digit_char_def by (simp only: nth_eq_iff_index_eq)
qed

lemma digit_char_not_minus: "d < 10 \<Longrightarrow> digit_char d \<noteq> CHR ''-''"
proof -
  assume "d < 10"
  then have "digit_char d \<in> set ''0123456789''"
    unfolding digit_char_def by (intro nth_mem) simp
  then show ?thesis by auto
qed

lemma str_nat_simps:
  "n < 10 \<Longrightarrow> str_nat n = [digit_char n]"
  "\<not> n < 10 \<Longrightarrow> str_nat n = str_nat (n div 10) @ [digit_char (n mod 10)]"
  by (simp_all add: str_nat.simps [of n])

lemma str_nat_not_Nil: "str_nat n \<noteq> []"
  by (cases "n < 10") (simp_all add: str_nat_simps)

lemma str_nat_inj: "str_nat n = str_nat m \<Longrightarrow> n = m"
proof (induction n arbitrary: m rule: str_nat.induct)
  case (1 n)
  show ?case
  proof (cases "n < 10")
    case True
    show ?thesis
    proof (cases "m < 10")
      case m: True
      then show ?thesis using True "1.prems" digit_char_inj by (simp add: str_nat_simps)
    next
      case False
      then show ?thesis using True "1.prems" str_nat_not_Nil [of "m div 10"]
        by (simp add: str_nat_simps)
    qed
  next
    case False
    show ?thesis
    proof (cases "m < 10")
      case True
      then show ?thesis using False "1.prems" str_nat_not_Nil [of "n div 10"]
        by (simp add: str_nat_simps)
    next
      case m: False
      have "str_nat (n div 10) @ [digit_char (n mod 10)] = str_nat (m div 10) @ [digit_char (m mod 10)]"
        using False m "1.prems" by (simp add: str_nat_simps)
      then have a: "str_nat (n div 10) = str_nat (m div 10)"
        and b: "digit_char (n mod 10) = digit_char (m mod 10)" by simp_all
      have "n div 10 = m div 10" using "1.IH" [OF False a] .
      moreover have "n mod 10 = m mod 10" using b by (intro digit_char_inj) simp_all
      ultimately show ?thesis by (metis div_mult_mod_eq)
    qed
  qed
qed

lemma str_nat_hd_not_minus: "hd (str_nat n) \<noteq> CHR ''-''"
proof (induction n rule: str_nat.induct)
  case (1 n)
  show ?case
  proof (cases "n < 10")
    case True
    then show ?thesis using digit_char_not_minus by (simp add: str_nat_simps)
  next
    case False
    then show ?thesis using "1.IH" str_nat_not_Nil [of "n div 10"] by (simp add: str_nat_simps)
  qed
qed

lemma str_int_inj: "str_int i = str_int j \<Longrightarrow> i = j"
proof -
  assume a: "str_int i = str_int j"
  have neg: "str_int k = CHR ''-'' # str_nat (nat (- k))" if "k < 0" for k
    using that by (simp add: str_int_def)
  have pos: "str_int k = str_nat (nat k)" if "\<not> k < 0" for k
    using that by (simp add: str_int_def)
  have mix: False if "k < 0" "\<not> l < 0" "str_int k = str_int l" for k l
  proof -
    have "CHR ''-'' # str_nat (nat (- k)) = str_nat (nat l)"
      using that neg [of k] pos [of l] by simp
    then have "hd (str_nat (nat l)) = CHR ''-''" by (metis list.sel(1))
    then show False using str_nat_hd_not_minus by blast
  qed
  show "i = j"
  proof (cases "i < 0")
    case True
    show ?thesis
    proof (cases "j < 0")
      case j: True
      have "nat (- i) = nat (- j)" using a neg [OF True] neg [OF j] str_nat_inj by simp
      then show ?thesis using True j by simp
    next
      case False
      then show ?thesis using mix [OF True False a] by simp
    qed
  next
    case False
    show ?thesis
    proof (cases "j < 0")
      case True
      then show ?thesis using mix [OF True False] a by simp
    next
      case j: False
      have "nat i = nat j" using a pos [OF False] pos [OF j] str_nat_inj by simp
      then show ?thesis using False j by simp
    qed
  qed
qed

text \<open>The message identifies the kind of failure, and the code of an unknown one.\<close>

lemma failure_text_inj: "failure_text a = failure_text b \<Longrightarrow> a = b"
  by (cases a; cases b) (auto dest: str_int_inj)

text \<open>
  C4, as stated, fails for the HTTP service: when the engine fails with status 1,
  \<^verbatim>\<open>stitch_images\<close> of \<^verbatim>\<open>app.py\<close> raises an error with the status in its message,
  which is not the message of the kind that status 1 is classified as.
\<close>

theorem app_stitch_error_unclassified:
  "app_stitch_images failing_env [example_image, example_image]
     = (Inl (RuntimeError ''Stitching failed with status 1''), [PANORAMA])
   \<and> classify 1 = InsufficientOverlap
   \<and> ''Stitching failed with status 1'' \<noteq> failure_text (classify 1)"
  by (simp add: failing_env_def app_stitch_images_def Stitcher_OK_def str_int_def str_nat.simps
      digit_char_def classify_def)

text \<open>
  C4, amended. When every run of the batch tool fails, it raises a \<^verbatim>\<open>RuntimeError\<close>
  whose message is that of the classification of the last run's status (1 insufficient
  overlap, 2 homography estimation, 3 camera parameter adjustment, any other status an
  unknown failure with its code); the messages of different kinds differ; the engine is
  not run again and no panorama is returned. The HTTP service does not classify: for
  every failing status it raises a \<^verbatim>\<open>RuntimeError\<close> whose message carries the status.
\<close>

theorem stitch_failure_classified:
  "(\<forall>mode. first_mode env = Inr mode \<and> fst (run_stitcher env mode 0 images) \<noteq> Stitcher_OK
        \<and> has_PANORAMA env \<and> fst (run_stitcher env PANORAMA 1 images) \<noteq> Stitcher_OK
      \<longrightarrow> batch_stitch_images env images
            = (Inl (RuntimeError (failure_text (classify (fst (run_stitcher env PANORAMA 1 images))))),
               [mode, PANORAMA]))
   \<and> (\<forall>mode. first_mode env = Inr mode \<and> fst (run_stitcher env mode 0 images) \<noteq> Stitcher_OK
        \<and> \<not> has_PANORAMA env
      \<longrightarrow> batch_stitch_images env images
            = (Inl (RuntimeError (failure_text (classify (fst (run_stitcher env mode 0 images))))),
               [mode]))
   \<and> (has_PANORAMA env \<and> fst (run_stitcher env PANORAMA 0 images) \<noteq> Stitcher_OK
      \<longrightarrow> app_stitch_images env images
            = (Inl (RuntimeError (''Stitching failed with status ''
                                  @ str_int (fst (run_stitcher env PANORAMA 0 images)))),
               [PANORAMA]))
   \<and> (\<forall>a b. failure_text a = failure_text b \<longrightarrow> a = b)"
proof (intro conjI allI impI)
  fix mode
  assume a: "first_mode env = Inr mode \<and> fst (run_stitcher env mode 0 images) \<noteq> Stitcher_OK
        \<and> has_PANORAMA env \<and> fst (run_stitcher env PANORAMA 1 images) \<noteq> Stitcher_OK"
  obtain s p where r: "run_stitcher env PANORAMA 1 images = (s, p)"
    by (cases "run_stitcher env PANORAMA 1 images")
  show "batch_stitch_images env images
            = (Inl (RuntimeError (failure_text (classify (fst (run_stitcher env PANORAMA 1 images))))),
               [mode, PANORAMA])"
    using a r batch_stitch_retry [of env mode images s p] by (simp add: error_msg_classify)
next
  fix mode
  assume a: "first_mode env = Inr mode \<and> fst (run_stitcher env mode 0 images) \<noteq> Stitcher_OK
        \<and> \<not> has_PANORAMA env"
  obtain s p where r: "run_stitcher env mode 0 images = (s, p)"
    by (cases "run_stitcher env mode 0 images")
  show "batch_stitch_images env images
            = (Inl (RuntimeError (failure_text (classify (fst (run_stitcher env mode 0 images))))),
               [mode])"
    using a r batch_stitch_no_retry [of env mode images s p] by (simp add: error_msg_classify)
next
  assume a: "has_PANORAMA env \<and> fst (run_stitcher env PANORAMA 0 images) \<noteq> Stitcher_OK"
  obtain s p where r: "run_stitcher env PANORAMA 0 images = (s, p)"
    by (cases "run_stitcher env PANORAMA 0 images")
  show "app_stitch_images env images
            = (Inl (RuntimeError (''Stitching failed with status ''
                                  @ str_int (fst (run_stitcher env PANORAMA 0 images)))),
               [PANORAMA])"
    using a r by (simp add: app_stitch_images_def)
next
  fix a b
  assume "failure_text a = failure_text b"
  then show "a = b" by (rule failure_text_inj)
qed

theorem stitch_failure_classified_witness:
  "first_mode failing_env = Inr SCANS
   \<and> fst (run_stitcher failing_env SCANS 0 [example_image, example_image]) \<noteq> Stitcher_OK
   \<and> has_PANORAMA failing_env
   \<and> fst (run_stitcher failing_env PANORAMA 1 [example_image, example_image]) \<noteq> Stitcher_OK
   \<and> fst (run_stitcher failing_env PANORAMA 0 [example_image, example_image]) \<noteq> Stitcher_OK
   \<and> batch_stitch_images failing_env [example_image, example_image]
       = (Inl (RuntimeError ''Need more images or insufficient overlap''), [SCANS, PANORAMA])
   \<and> app_stitch_images failing_env [example_image, example_image]
       = (Inl (RuntimeError ''Stitching failed with status 1''), [PANORAMA])"
proof -
  have 1: "first_mode failing_env = Inr SCANS" "has_PANORAMA failing_env"
    "run_stitcher failing_env SCANS 0 [example_image, example_image] = (1, example_image)"
    "run_stitcher failing_env PANORAMA 1 [example_image, example_image] = (1, example_image)"
    "run_stitcher failing_env PANORAMA 0 [example_image, example_image] = (1, example_image)"
    by (simp_all add: failing_env_def first_mode_def)
  have 2: "failure_text (classify 1) = ''Need more images or insufficient overlap''"
    "str_int 1 = ''1''"
    by (simp_all add: classify_def str_int_def str_nat.simps digit_char_def)
  show ?thesis
    using stitch_failure_classified [of failing_env "[example_image, example_image]"] 1 2
    by (simp add: Stitcher_OK_def)
qed

section \<open>The loader\<close>

lemma app_load_loop_eq:
  "app_load_loop folder fs (images, out) =
     (images @ List.map_filter entry_image fs,
      out @ map (\<lambda>f. ''Warning: Could not load '' @ path_join folder (entry_name f))
                (filter (\<lambda>f. entry_image f = None) fs))"
  by (induction fs arbitrary: images out) (auto simp: List.map_filter_simps split: option.split)

lemma batch_load_loop_fst:
  "fst (batch_load_loop folder fs (images, out)) = images @ List.map_filter entry_image fs"
  by (induction fs arbitrary: images out)
     (auto simp: List.map_filter_simps Let_def split: option.split)

lemma batch_load_loop_keeps: "set out \<subseteq> set (snd (batch_load_loop folder fs (images, out)))"
proof (induction fs arbitrary: images out)
  case Nil
  then show ?case by simp
next
  case (Cons f fs)
  show ?case
  proof (cases "entry_image f")
    case None
    then show ?thesis
      using Cons [of "out @ [''Loading '' @ entry_name f @ ''...'']
          @ [''  '' @ cross_mark @ '' Warning: Could not load '' @ path_join folder (entry_name f)]" images]
      by (auto simp: Let_def)
  next
    case (Some img)
    then show ?thesis
      using Cons [of "out @ [''Loading '' @ entry_name f @ ''...'']
          @ [''  '' @ check_mark @ '' Loaded: '' @ str_nat (shape1 img) @ ''x'' @ str_nat (shape0 img)]"
          "images @ [img]"]
      by (auto simp: Let_def)
  qed
qed

lemma batch_load_loop_warns:
  assumes "f \<in> set fs" and "entry_image f = None"
  shows "''  '' @ cross_mark @ '' Warning: Could not load '' @ path_join folder (entry_name f)
           \<in> set (snd (batch_load_loop folder fs (images, out)))"
  using assms
proof (induction fs arbitrary: images out)
  case Nil
  then show ?case by simp
next
  case (Cons g fs)
  let ?w = "''  '' @ cross_mark @ '' Warning: Could not load '' @ path_join folder (entry_name f)"
  show ?case
  proof (cases "g = f")
    case True
    let ?out = "out @ [''Loading '' @ entry_name f @ ''...''] @ [?w]"
    have "?w \<in> set ?out" by simp
    then have "?w \<in> set (snd (batch_load_loop folder fs (images, ?out)))"
      using batch_load_loop_keeps [of ?out folder fs images] by blast
    then show ?thesis using True Cons.prems(2) by (simp add: Let_def)
  next
    case False
    then have "f \<in> set fs" using Cons.prems(1) by simp
    then show ?thesis using Cons.IH Cons.prems(2)
      by (cases "entry_image g") (simp_all add: Let_def)
  qed
qed

lemma set_image_files:
  "set (image_files es) =
     {f \<in> set es. entry_is_file f \<and> path_suffix (entry_name f) \<in> image_extensions}"
  by (auto simp: image_files_def)

lemma sorted_image_files: "sorted (map entry_name (image_files es))"
  by (simp add: image_files_def)

lemma app_load_missing:
  "fs p = None \<Longrightarrow> app_load_images_from_folder fs p
     = (Inl (ValueError (''Folder '' @ p @ '' does not exist'')), [])"
  by (simp add: app_load_images_from_folder_def)

lemma batch_load_missing:
  "fs p = None \<Longrightarrow> batch_load_images_from_folder fs p
     = (Inl (ValueError (''Folder '' @ p @ '' does not exist'')), [])"
  by (simp add: batch_load_images_from_folder_def)

lemma app_load_few_files:
  "fs p = Some (Directory es) \<Longrightarrow> length (image_files es) < 2 \<Longrightarrow>
   app_load_images_from_folder fs p
     = (Inl (ValueError (''Need at least 2 images, found '' @ str_nat (length (image_files es)))), [])"
  by (simp add: app_load_images_from_folder_def)

lemma batch_load_few_files:
  "fs p = Some (Directory es) \<Longrightarrow> length (image_files es) < 2 \<Longrightarrow>
   batch_load_images_from_folder fs p
     = (Inl (ValueError (''Need at least 2 images, found '' @ str_nat (length (image_files es)))), [])"
  by (simp add: batch_load_images_from_folder_def)

lemma app_load_directory:
  assumes "fs p = Some (Directory es)" and "2 \<le> length (image_files es)"
  shows "fst (app_load_images_from_folder fs p) =
           (let decoded = List.map_filter entry_image (image_files es) in
            if length decoded < 2
            then Inl (ValueError (''Successfully loaded only '' @ str_nat (length decoded)
                                  @ '' images, need at least 2''))
            else Inr decoded)"
    and "snd (app_load_images_from_folder fs p) =
           map (\<lambda>f. ''Warning: Could not load '' @ path_join p (entry_name f))
               (filter (\<lambda>f. entry_image f = None) (image_files es))"
  using assms by (simp_all add: app_load_images_from_folder_def app_load_loop_eq Let_def)

lemma batch_load_directory:
  assumes "fs p = Some (Directory es)" and "2 \<le> length (image_files es)"
  shows "fst (batch_load_images_from_folder fs p) =
           (let decoded = List.map_filter entry_image (image_files es) in
            if length decoded < 2
            then Inl (ValueError (''Successfully loaded only '' @ str_nat (length decoded)
                                  @ '' images, need at least 2''))
            else Inr decoded)"
    and "snd (batch_load_images_from_folder fs p) = snd (batch_load_loop p (image_files es) ([], []))"
proof -
  obtain imgs out where l: "batch_load_loop p (image_files es) ([], []) = (imgs, out)"
    by (cases "batch_load_loop p (image_files es) ([], [])")
  have i: "imgs = List.map_filter entry_image (image_files es)"
    using batch_load_loop_fst [of p "image_files es" "[]" "[]"] l by simp
  show "fst (batch_load_images_from_folder fs p) =
           (let decoded = List.map_filter entry_image (image_files es) in
            if length decoded < 2
            then Inl (ValueError (''Successfully loaded only '' @ str_nat (length decoded)
                                  @ '' images, need at least 2''))
            else Inr decoded)"
    using assms l i by (simp add: batch_load_images_from_folder_def Let_def)
  show "snd (batch_load_images_from_folder fs p) = snd (batch_load_loop p (image_files es) ([], []))"
    using assms l by (simp add: batch_load_images_from_folder_def Let_def)
qed

text \<open>Every suffix of the allow-set satisfies the case-insensitive rule.\<close>

lemma image_extensions_match:
  assumes "path_suffix name \<in> image_extensions"
  shows "spec_extension_matches name"
proof -
  have "map lower_char (path_suffix name) \<in> {''.jpg'', ''.jpeg'', ''.png''}"
    using assms unfolding image_extensions_def by (elim insertE emptyE; simp; code_simp)
  then show ?thesis by (simp add: spec_extension_matches_def)
qed

lemma length_filter_mono:
  "(\<And>x. P x \<Longrightarrow> Q x) \<Longrightarrow> length (filter P xs) \<le> length (filter Q xs)"
  by (induction xs) auto

lemma length_image_files_le:
  "length (image_files es)
     \<le> length (filter (\<lambda>f. entry_is_file f \<and> spec_extension_matches (entry_name f)) es)"
proof -
  have "length (image_files es)
      = length (filter (\<lambda>f. entry_is_file f \<and> path_suffix (entry_name f) \<in> image_extensions) es)"
    by (simp add: image_files_def)
  also have "\<dots> \<le> length (filter (\<lambda>f. entry_is_file f \<and> spec_extension_matches (entry_name f)) es)"
    by (rule length_filter_mono) (simp add: image_extensions_match)
  finally show ?thesis .
qed

text \<open>
  C5: both loaders fail with the folder-missing \<^verbatim>\<open>ValueError\<close> on a path that does not
  exist; on a directory with fewer than two matching files (one or none, whether
  matching means the allow-set of the code or the case-insensitive rule) they fail with
  the too-few-images \<^verbatim>\<open>ValueError\<close>; a matching file that does not decode is skipped
  with a printed warning, and the call fails with the too-few-images \<^verbatim>\<open>ValueError\<close>
  when fewer than two images were decoded and returns the decoded images otherwise.
\<close>

theorem load_failures:
  "(fs p = None \<longrightarrow>
      fst (app_load_images_from_folder fs p) = Inl (ValueError (''Folder '' @ p @ '' does not exist''))
    \<and> fst (batch_load_images_from_folder fs p) = Inl (ValueError (''Folder '' @ p @ '' does not exist'')))
   \<and> (\<forall>es. fs p = Some (Directory es) \<and> length (image_files es) < 2 \<longrightarrow>
      fst (app_load_images_from_folder fs p)
        = Inl (ValueError (''Need at least 2 images, found '' @ str_nat (length (image_files es))))
    \<and> fst (batch_load_images_from_folder fs p)
        = Inl (ValueError (''Need at least 2 images, found '' @ str_nat (length (image_files es)))))
   \<and> (\<forall>es. fs p = Some (Directory es)
        \<and> length (filter (\<lambda>f. entry_is_file f \<and> spec_extension_matches (entry_name f)) es) < 2 \<longrightarrow>
      length (image_files es) < 2)
   \<and> (\<forall>es decoded. fs p = Some (Directory es) \<and> 2 \<le> length (image_files es)
        \<and> decoded = List.map_filter entry_image (image_files es) \<and> length decoded < 2 \<longrightarrow>
      fst (app_load_images_from_folder fs p)
        = Inl (ValueError (''Successfully loaded only '' @ str_nat (length decoded)
                           @ '' images, need at least 2''))
    \<and> fst (batch_load_images_from_folder fs p)
        = Inl (ValueError (''Successfully loaded only '' @ str_nat (length decoded)
                           @ '' images, need at least 2'')))
   \<and> (\<forall>es decoded. fs p = Some (Directory es) \<and> 2 \<le> length (image_files es)
        \<and> decoded = List.map_filter entry_image (image_files es) \<and> 2 \<le> length decoded \<longrightarrow>
      fst (app_load_images_from_folder fs p) = Inr decoded
    \<and> fst (batch_load_images_from_folder fs p) = Inr decoded)
   \<and> (\<forall>es f. fs p = Some (Directory es) \<and> 2 \<le> length (image_files es)
        \<and> f \<in> set (image_files es) \<and> entry_image f = None \<longrightarrow>
      ''Warning: Could not load '' @ path_join p (entry_name f)
        \<in> set (snd (app_load_images_from_folder fs p))
    \<and> ''  '' @ cross_mark @ '' Warning: Could not load '' @ path_join p (entry_name f)
        \<in> set (snd (batch_load_images_from_folder fs p)))"
proof (intro conjI allI impI)
  assume "fs p = None"
  then show "fst (app_load_images_from_folder fs p) = Inl (ValueError (''Folder '' @ p @ '' does not exist''))"
    and "fst (batch_load_images_from_folder fs p) = Inl (ValueError (''Folder '' @ p @ '' does not exist''))"
    by (simp_all add: app_load_missing batch_load_missing)
next
  fix es
  assume "fs p = Some (Directory es) \<and> length (image_files es) < 2"
  then show "fst (app_load_images_from_folder fs p)
        = Inl (ValueError (''Need at least 2 images, found '' @ str_nat (length (image_files es))))"
    and "fst (batch_load_images_from_folder fs p)
        = Inl (ValueError (''Need at least 2 images, found '' @ str_nat (length (image_files es))))"
    by (simp_all add: app_load_few_files batch_load_few_files)
next
  fix es
  assume "fs p = Some (Directory es)
        \<and> length (filter (\<lambda>f. entry_is_file f \<and> spec_extension_matches (entry_name f)) es) < 2"
  then show "length (image_files es) < 2"
    using length_image_files_le [of es] by simp
next
  fix es decoded
  assume a: "fs p = Some (Directory es) \<and> 2 \<le> length (image_files es)
        \<and> decoded = List.map_filter entry_image (image_files es) \<and> length decoded < 2"
  then have d: "decoded = List.map_filter entry_image (image_files es)"
    and l: "length (List.map_filter entry_image (image_files es)) < 2"
    and f: "fs p = Some (Directory es)" "2 \<le> length (image_files es)"
    by blast+
  show "fst (app_load_images_from_folder fs p)
        = Inl (ValueError (''Successfully loaded only '' @ str_nat (length decoded)
                           @ '' images, need at least 2''))"
    unfolding d using l f app_load_directory(1) [of fs p es] by (simp add: Let_def)
  show "fst (batch_load_images_from_folder fs p)
        = Inl (ValueError (''Successfully loaded only '' @ str_nat (length decoded)
                           @ '' images, need at least 2''))"
    unfolding d using l f batch_load_directory(1) [of fs p es] by (simp add: Let_def)
next
  fix es decoded
  assume a: "fs p = Some (Directory es) \<and> 2 \<le> length (image_files es)
        \<and> decoded = List.map_filter entry_image (image_files es) \<and> 2 \<le> length decoded"
  then have d: "decoded = List.map_filter entry_image (image_files es)"
    and l: "\<not> length (List.map_filter entry_image (image_files es)) < 2"
    and f: "fs p = Some (Directory es)" "2 \<le> length (image_files es)"
    by auto
  show "fst (app_load_images_from_folder fs p) = Inr decoded"
    unfolding d using l f app_load_directory(1) [of fs p es] by (simp add: Let_def)
  show "fst (batch_load_images_from_folder fs p) = Inr decoded"
    unfolding d using l f batch_load_directory(1) [of fs p es] by (simp add: Let_def)
next
  fix es f
  assume a: "fs p = Some (Directory es) \<and> 2 \<le> length (image_files es)
        \<and> f \<in> set (image_files es) \<and> entry_image f = None"
  show "''Warning: Could not load '' @ path_join p (entry_name f)
        \<in> set (snd (app_load_images_from_folder fs p))"
    using a app_load_directory(2) [of fs p es] by auto
  show "''  '' @ cross_mark @ '' Warning: Could not load '' @ path_join p (entry_name f)
        \<in> set (snd (batch_load_images_from_folder fs p))"
    using a batch_load_directory(2) [of fs p es]
      batch_load_loop_warns [of f "image_files es" p "[]" "[]"] by simp
qed

lemma example_image_files:
  "image_files example_entries =
     [\<lparr>entry_name = ''a.JPG'', entry_is_file = True, entry_image = None\<rparr>,
      \<lparr>entry_name = ''b.png'', entry_is_file = True, entry_image = Some example_image\<rparr>]"
  by code_simp

theorem load_failures_witness:
  "example_fs ''Nowhere'' = None
   \<and> fst (app_load_images_from_folder example_fs ''Nowhere'')
       = Inl (ValueError ''Folder Nowhere does not exist'')
   \<and> example_fs ''Images'' = Some (Directory example_entries)
   \<and> 2 \<le> length (image_files example_entries)
   \<and> length (List.map_filter entry_image (image_files example_entries)) < 2
   \<and> fst (app_load_images_from_folder example_fs ''Images'')
       = Inl (ValueError ''Successfully loaded only 1 images, need at least 2'')
   \<and> fst (batch_load_images_from_folder example_fs ''Images'')
       = Inl (ValueError ''Successfully loaded only 1 images, need at least 2'')
   \<and> ''Warning: Could not load Images/a.JPG''
       \<in> set (snd (app_load_images_from_folder example_fs ''Images''))"
proof -
  have 1: "example_fs ''Nowhere'' = None" "example_fs ''Images'' = Some (Directory example_entries)"
    by (simp_all add: example_fs_def)
  have 2: "List.map_filter entry_image (image_files example_entries) = [example_image]"
    by (simp add: example_image_files List.map_filter_simps)
  have 3: "str_nat 1 = ''1''" by (simp add: str_nat.simps digit_char_def)
  have 4: "\<lparr>entry_name = ''a.JPG'', entry_is_file = True, entry_image = None\<rparr>
      \<in> set (image_files example_entries)"
    by (simp add: example_image_files)
  note a = load_failures [of example_fs "''Nowhere''"]
  note b = load_failures [of example_fs "''Images''"]
  have "fst (app_load_images_from_folder example_fs ''Nowhere'')
       = Inl (ValueError ''Folder Nowhere does not exist'')"
    using a 1 by simp
  moreover have "fst (app_load_images_from_folder example_fs ''Images'')
       = Inl (ValueError ''Successfully loaded only 1 images, need at least 2'')"
    and "fst (batch_load_images_from_folder example_fs ''Images'')
       = Inl (ValueError ''Successfully loaded only 1 images, need at least 2'')"
    using b 1 2 3 by (simp_all add: example_image_files)
  moreover have "''Warning: Could not load Images/a.JPG''
       \<in> set (snd (app_load_images_from_folder example_fs ''Images''))"
  proof -
    let ?f = "\<lparr>entry_name = ''a.JPG'', entry_is_file = True, entry_image = (None :: nat ndarray option)\<rparr>"
    note w = b [THEN conjunct2, THEN conjunct2, THEN conjunct2, THEN conjunct2, THEN conjunct2,
        rule_format,
        of example_entries ?f, THEN conjunct1]
    have "''Warning: Could not load '' @ path_join ''Images'' (entry_name ?f)
        \<in> set (snd (app_load_images_from_folder example_fs ''Images''))"
      using 1(2) 4 by (intro w) (simp add: example_image_files)
    then show ?thesis by (simp add: path_join_def)
  qed
  ultimately show ?thesis using 1 2 by (simp add: example_image_files)
qed

text \<open>
  C6, as stated, fails: a file whose extension is \<open>jpg\<close> in mixed case satisfies the
  case-insensitive rule but is not selected.
\<close>

theorem mixed_case_extension_not_selected:
  "spec_extension_matches ''a.Jpg''
   \<and> \<lparr>entry_name = ''a.Jpg'', entry_is_file = True, entry_image = Some example_image\<rparr>
       \<in> set example_entries
   \<and> map entry_name (image_files example_entries) = [''a.JPG'', ''b.png'']"
proof -
  have "spec_extension_matches ''a.Jpg''" by code_simp
  then show ?thesis by (simp add: example_image_files) (simp add: example_entries_def)
qed

text \<open>
  C6, amended. An entry is selected if and only if it is a regular file whose suffix is
  exactly one of \<open>.jpg\<close>, \<open>.jpeg\<close>, \<open>.png\<close>, \<open>.JPG\<close>, \<open>.JPEG\<close>, \<open>.PNG\<close>; every
  selected entry satisfies the case-insensitive rule; the selected entries are ordered
  by file name, and the images are returned in that order.
\<close>

theorem image_files_selection:
  "set (image_files es)
     = {f \<in> set es. entry_is_file f
          \<and> path_suffix (entry_name f) \<in> {''.jpg'', ''.jpeg'', ''.png'', ''.JPG'', ''.JPEG'', ''.PNG''}}
   \<and> (\<forall>f \<in> set (image_files es). spec_extension_matches (entry_name f))
   \<and> sorted (map entry_name (image_files es))
   \<and> (\<forall>fs p imgs. fs p = Some (Directory es)
         \<and> (fst (app_load_images_from_folder fs p) = Inr imgs
            \<or> fst (batch_load_images_from_folder fs p) = Inr imgs)
       \<longrightarrow> imgs = List.map_filter entry_image (image_files es))"
proof (intro conjI ballI allI impI)
  show "set (image_files es)
     = {f \<in> set es. entry_is_file f
          \<and> path_suffix (entry_name f) \<in> {''.jpg'', ''.jpeg'', ''.png'', ''.JPG'', ''.JPEG'', ''.PNG''}}"
    using set_image_files [of es] by (simp add: image_extensions_def)
  show "sorted (map entry_name (image_files es))" by (rule sorted_image_files)
next
  fix f
  assume "f \<in> set (image_files es)"
  then have "path_suffix (entry_name f) \<in> image_extensions" by (simp add: set_image_files)
  then show "spec_extension_matches (entry_name f)" by (rule image_extensions_match)
next
  fix fs :: "'a filesystem" and p imgs
  assume a: "fs p = Some (Directory es)
         \<and> (fst (app_load_images_from_folder fs p) = Inr imgs
            \<or> fst (batch_load_images_from_folder fs p) = Inr imgs)"
  show "imgs = List.map_filter entry_image (image_files es)"
  proof (cases "length (image_files es) < 2")
    case True
    then show ?thesis using a by (auto simp: app_load_few_files batch_load_few_files)
  next
    case False
    then have "2 \<le> length (image_files es)" by simp
    then show ?thesis
      using a app_load_directory(1) [of fs p es] batch_load_directory(1) [of fs p es]
      by (auto simp: Let_def split: if_splits)
  qed
qed

theorem image_files_selection_witness:
  "set (image_files example_entries)
     = {f \<in> set example_entries. entry_is_file f
          \<and> path_suffix (entry_name f) \<in> {''.jpg'', ''.jpeg'', ''.png'', ''.JPG'', ''.JPEG'', ''.PNG''}}
   \<and> \<lparr>entry_name = ''b.png'', entry_is_file = True, entry_image = Some example_image\<rparr>
       \<in> set (image_files example_entries)
   \<and> spec_extension_matches ''b.png''
   \<and> sorted (map entry_name (image_files example_entries))"
proof -
  have "\<lparr>entry_name = ''b.png'', entry_is_file = True, entry_image = Some example_image\<rparr>
       \<in> set (image_files example_entries)"
    by (simp add: example_image_files)
  then show ?thesis using image_files_selection [of example_entries] by fastforce
qed

section \<open>The HTTP handlers\<close>



text \<open>A panorama that \<^verbatim>\<open>cv2.remap\<close> refuses ends the request before anything is encoded.\<close>

lemma spe_project_failed:
  assumes "app_stitch_images env cv_images = (Inr pano, runs)"
    and "pano_to_equirectangular (bilinear_wrap cd) pano default_output_w default_output_h = Inl e"
  shows "stitch_project_encode cd env cv_images save_to = (Inl e, map EngineRun runs)"
  using assms by (simp add: stitch_project_encode_def)














end
